theory Spec2Isabelle
  imports Main "HOL-Library.Sublist"
begin

section \<open>Go strings: bytes, runes and the functions of package strings that the pipeline uses\<close>

text \<open>
  A Go string is a sequence of bytes, here a \<open>string\<close> (a list of 8-bit characters).
  Indexing and slicing (\<open>s[i:]\<close>) count bytes; \<open>range\<close>, \<open>strings.IndexAny\<close> and
  \<open>strings.TrimSpace\<close> decode UTF-8, an invalid byte being the rune U+FFFD of width 1.
\<close>

definition byte :: "char \<Rightarrow> nat" where
  "byte c = of_char c"

text \<open>\<open>s[i]\<close>, read only where the source has checked \<open>i < len(s)\<close>.\<close>

definition byte_at :: "string \<Rightarrow> nat \<Rightarrow> nat" where
  "byte_at s i = (if i < length s then byte (s ! i) else 0)"

definition RuneError :: nat where
  "RuneError = 0xFFFD"

text \<open>
  \<open>utf8.DecodeRuneInString\<close>: the rune at the head of the string and its width in bytes.
  The first byte fixes the width and the range accepted for the second byte; overlong
  encodings, surrogates and values beyond U+10FFFF are invalid.
\<close>

definition DecodeRuneInString :: "string \<Rightarrow> nat \<times> nat" where
  "DecodeRuneInString s =
    (let n = length s; s0 = byte_at s 0 in
     if n < 1 then (RuneError, 0)
     else if s0 < 0x80 then (s0, 1)
     else if s0 < 0xC2 \<or> 0xF4 < s0 then (RuneError, 1)
     else
       let sz = (if s0 < 0xE0 then 2 else if s0 < 0xF0 then 3 else 4 :: nat);
           lo = (if s0 = 0xE0 then 0xA0 else if s0 = 0xF0 then 0x90 else 0x80 :: nat);
           hi = (if s0 = 0xED then 0x9F else if s0 = 0xF4 then 0x8F else 0xBF :: nat);
           s1 = byte_at s 1; s2 = byte_at s 2; s3 = byte_at s 3
       in if n < sz then (RuneError, 1)
          else if s1 < lo \<or> hi < s1 then (RuneError, 1)
          else if sz \<le> 2 then ((s0 mod 0x20) * 0x40 + s1 mod 0x40, 2)
          else if s2 < 0x80 \<or> 0xBF < s2 then (RuneError, 1)
          else if sz \<le> 3 then ((s0 mod 0x10) * 0x1000 + (s1 mod 0x40) * 0x40 + s2 mod 0x40, 3)
          else if s3 < 0x80 \<or> 0xBF < s3 then (RuneError, 1)
          else ((s0 mod 8) * 0x40000 + (s1 mod 0x40) * 0x1000 + (s2 mod 0x40) * 0x40
                  + s3 mod 0x40, 4))"

text \<open>
  \<open>utf8.DecodeLastRuneInString\<close>: the rune at the end of the string. It walks back at most
  \<open>UTFMax = 4\<close> bytes to a byte that can start a rune and decodes from there; when that rune
  does not end exactly at the end of the string the last byte is invalid.
\<close>

definition RuneStart :: "nat \<Rightarrow> bool" where
  "RuneStart b = (\<not> (0x80 \<le> b \<and> b < 0xC0))"

function scan_back :: "string \<Rightarrow> int \<Rightarrow> int \<Rightarrow> int" where
  "scan_back s start lim =
     (if start \<ge> lim \<and> 0 \<le> start
      then (if RuneStart (byte_at s (nat start)) then start else scan_back s (start - 1) lim)
      else start)"
  by pat_completeness auto
termination
  by (relation "measure (\<lambda>(s, start, lim). nat (start + 1))") auto

declare scan_back.simps [simp del]

definition last_start :: "string \<Rightarrow> int" where
  "last_start s =
    (let end = int (length s);
         lim = (if end - 4 < 0 then 0 else end - 4);
         start = scan_back s (end - 2) lim
     in if start < 0 then 0 else start)"

definition DecodeLastRuneInString :: "string \<Rightarrow> nat \<times> nat" where
  "DecodeLastRuneInString s =
    (if s = [] then (RuneError, 0)
     else if byte (last s) < 0x80 then (byte (last s), 1)
     else
       let rs = DecodeRuneInString (drop (nat (last_start s)) s)
       in if last_start s + int (snd rs) \<noteq> int (length s) then (RuneError, 1) else rs)"

text \<open>\<open>unicode.IsSpace\<close>: the Latin-1 spaces and the other code points of White_Space.\<close>

definition IsSpace :: "nat \<Rightarrow> bool" where
  "IsSpace r =
    (if r \<le> 0xFF then r \<in> {0x09, 0x0A, 0x0B, 0x0C, 0x0D, 0x20, 0x85, 0xA0}
     else r = 0x1680 \<or> (0x2000 \<le> r \<and> r \<le> 0x200A) \<or> r = 0x2028 \<or> r = 0x2029
          \<or> r = 0x202F \<or> r = 0x205F \<or> r = 0x3000)"

lemma if_snd: "snd (if b then x else y) = (if b then snd x else snd y)"
  by simp

lemma DecodeRuneInString_width:
  "s \<noteq> [] \<Longrightarrow> 0 < snd (DecodeRuneInString s)"
  unfolding DecodeRuneInString_def Let_def
  by (cases s) (simp_all add: if_snd)

lemma scan_back_le: "scan_back s start lim \<le> start"
proof (induction s start lim rule: scan_back.induct)
  case (1 s start lim)
  show ?case
  proof (cases "start \<ge> lim \<and> 0 \<le> start \<and> \<not> RuneStart (byte_at s (nat start))")
    case True
    then have "scan_back s start lim = scan_back s (start - 1) lim"
      by (subst scan_back.simps) simp
    moreover have "scan_back s (start - 1) lim \<le> start - 1"
      using True "1.IH" by simp
    ultimately show ?thesis by simp
  next
    case False
    then show ?thesis by (subst scan_back.simps) auto
  qed
qed

lemma last_start_less:
  assumes "s \<noteq> []"
  shows "last_start s < int (length s)"
proof -
  have *: "scan_back s (int (length s) - 2) lim < int (length s)" for lim
    using scan_back_le [of s "int (length s) - 2" lim] by linarith
  show ?thesis
    using assms * by (simp add: last_start_def Let_def)
qed

lemma DecodeLastRuneInString_width:
  assumes "s \<noteq> []"
  shows "0 < snd (DecodeLastRuneInString s)"
proof (cases "byte (last s) < 0x80")
  case True
  with assms show ?thesis by (simp add: DecodeLastRuneInString_def)
next
  case False
  define rs where "rs = DecodeRuneInString (drop (nat (last_start s)) s)"
  show ?thesis
  proof (cases "last_start s + int (snd rs) \<noteq> int (length s)")
    case True
    with assms False show ?thesis
      by (simp add: DecodeLastRuneInString_def Let_def rs_def [symmetric])
  next
    case eq: False
    then have "0 < snd rs" using last_start_less [OF assms] by simp
    with assms False eq show ?thesis
      by (simp add: DecodeLastRuneInString_def Let_def rs_def [symmetric])
  qed
qed

text \<open>
  \<open>strings.TrimSpace\<close> removes the leading and then the trailing white-space runes
  (\<open>TrimLeftFunc\<close> and \<open>TrimRightFunc\<close> with \<open>unicode.IsSpace\<close>; its ASCII fast path gives
  the same result).
\<close>

function TrimLeftSpace :: "string \<Rightarrow> string" where
  "TrimLeftSpace s =
     (if s = [] then []
      else if IsSpace (fst (DecodeRuneInString s))
           then TrimLeftSpace (drop (snd (DecodeRuneInString s)) s)
           else s)"
  by pat_completeness auto
termination
  by (relation "measure length") (auto simp: DecodeRuneInString_width)

function TrimRightSpace :: "string \<Rightarrow> string" where
  "TrimRightSpace s =
     (if s = [] then []
      else if IsSpace (fst (DecodeLastRuneInString s))
           then TrimRightSpace (take (length s - snd (DecodeLastRuneInString s)) s)
           else s)"
  by pat_completeness auto
termination
  by (relation "measure length") (auto simp: DecodeLastRuneInString_width)

declare TrimLeftSpace.simps [simp del] TrimRightSpace.simps [simp del]

definition TrimSpace :: "string \<Rightarrow> string" where
  "TrimSpace s = TrimRightSpace (TrimLeftSpace s)"

text \<open>\<open>strings.Split(s, sep)\<close> for a separator of one byte, as in \<open>Split(podcastContent, "\n")\<close>:
  one piece more than there are separators, the empty string giving one empty piece.\<close>

fun Split :: "string \<Rightarrow> char \<Rightarrow> string list" where
  "Split [] sep = [[]]"
| "Split (c # cs) sep =
     (if c = sep then [] # Split cs sep
      else (case Split cs sep of [] \<Rightarrow> [[c]] | p # ps \<Rightarrow> (c # p) # ps))"

definition HasPrefix :: "string \<Rightarrow> string \<Rightarrow> bool" where
  "HasPrefix s pre = (length s \<ge> length pre \<and> take (length pre) s = pre)"

text \<open>
  \<open>strings.IndexAny(s, chars)\<close>: the byte index of the first rune of \<open>s\<close> that is one of the
  runes of \<open>chars\<close>, or \<open>-1\<close> (here \<open>None\<close>). \<open>runes\<close> is the sequence a \<open>range\<close> loop sees.
\<close>

function runes :: "string \<Rightarrow> nat list" where
  "runes s =
     (if s = [] then []
      else fst (DecodeRuneInString s) # runes (drop (snd (DecodeRuneInString s)) s))"
  by pat_completeness auto
termination
  by (relation "measure length") (auto simp: DecodeRuneInString_width)

function index_rune_in :: "nat list \<Rightarrow> string \<Rightarrow> nat \<Rightarrow> nat option" where
  "index_rune_in cs s i =
     (if s = [] then None
      else if fst (DecodeRuneInString s) \<in> set cs then Some i
      else index_rune_in cs (drop (snd (DecodeRuneInString s)) s)
             (i + snd (DecodeRuneInString s)))"
  by pat_completeness auto
termination
  by (relation "measure (\<lambda>(cs, s, i). length s)") (auto simp: DecodeRuneInString_width)

declare runes.simps [simp del] index_rune_in.simps [simp del]

definition IndexAny :: "string \<Rightarrow> string \<Rightarrow> nat option" where
  "IndexAny s chars = (if chars = [] then None else index_rune_in (runes chars) s 0)"

section \<open>The generation pipeline (\<open>processHackerNews\<close>, config.go)\<close>

subsection \<open>Data\<close>

text \<open>\<open>models.Story\<close>, and the anonymous struct \<open>content\<close> that is stored as JSON per date.\<close>

record Story =
  ID :: string
  Title :: string
  URL :: string
  HackerNewsURL :: string
  Content :: string
  Comments :: string

record content =
  Intro :: string
  Podcast :: string
  Blog :: string
  AudioURL :: string
  AudioFiles :: "string list"

subsection \<open>Collaborators\<close>

text \<open>
  Every call that leaves the pipeline is recorded: the methods of \<open>s.minioClient\<close>,
  \<open>s.hnClient\<close>, \<open>s.aiClient\<close> and \<open>s.ttsService\<close>, the call of \<open>mergeAudioBytes\<close> (which runs
  ffmpeg on temporary files) and \<open>time.Sleep\<close>. The reply to a call is chosen by the
  environment and may depend on everything that happened before; \<open>Failed\<close> is a non-nil
  error. The trace of calls and replies is the state that the run threads through.
\<close>

datatype call =
    MinioObjectExists string
  | MinioDownloadFile string
  | MinioUploadFile string string string
  | HnGetTopStories string int
  | HnGetStoryContent Story int
  | AiGenerateStoryText string
  | AiGeneratePodcastContent "string list"
  | AiGenerateBlogContent "string list"
  | AiGenerateIntroContent string
  | TtsSynthesizeSpeech string string
  | MergeAudio "string list"
  | TimeSleep int

datatype reply = Failed | Flag bool | Bytes string | Stories "Story list" | Done

type_synonym event = "call \<times> reply"
type_synonym trace = "event list"

text \<open>
  The server: the environment that answers the calls, \<open>encoding/json\<close> on the \<open>content\<close>
  struct, and the two configuration values that \<open>processHackerNews\<close> reads.
\<close>

record server =
  respond :: "trace \<Rightarrow> call \<Rightarrow> reply"
  json_Marshal :: "content \<Rightarrow> string option"
  json_Unmarshal :: "string \<Rightarrow> content option"
  config_Server_Env :: string
  config_OpenAI_MaxTokens :: int

definition perform :: "server \<Rightarrow> call \<Rightarrow> trace \<Rightarrow> reply \<times> trace" where
  "perform s c t = (respond s t c, t @ [(c, respond s t c)])"

text \<open>A call that returns \<open>(bool, error)\<close>: \<open>ObjectExists\<close> returns \<open>false\<close> with every error.\<close>

definition flag_of :: "reply \<Rightarrow> bool" where
  "flag_of r = (case r of Flag b \<Rightarrow> b | _ \<Rightarrow> False)"

definition call_flag :: "server \<Rightarrow> call \<Rightarrow> trace \<Rightarrow> bool \<times> trace" where
  "call_flag s c t = (flag_of (fst (perform s c t)), snd (perform s c t))"

text \<open>A call that returns \<open>(string, error)\<close> or \<open>([]byte, error)\<close>: \<open>None\<close> is the error.\<close>

definition text_of :: "reply \<Rightarrow> string option" where
  "text_of r = (case r of Bytes b \<Rightarrow> Some b | _ \<Rightarrow> None)"

definition call_text :: "server \<Rightarrow> call \<Rightarrow> trace \<Rightarrow> string option \<times> trace" where
  "call_text s c t = (text_of (fst (perform s c t)), snd (perform s c t))"

definition stories_of :: "reply \<Rightarrow> Story list option" where
  "stories_of r = (case r of Stories ss \<Rightarrow> Some ss | _ \<Rightarrow> None)"

definition call_stories :: "server \<Rightarrow> call \<Rightarrow> trace \<Rightarrow> Story list option \<times> trace" where
  "call_stories s c t = (stories_of (fst (perform s c t)), snd (perform s c t))"

subsection \<open>Constants of the source\<close>

definition Second :: int where
  "Second = 1000000000"

definition Minute :: int where
  "Minute = 60 * Second"

text \<open>The speaker names are the UTF-8 bytes of U+7537 (male) and U+5973 (female); the
  full-width colon is U+FF1A.\<close>

definition male :: string where
  "male = [CHR 0xE7, CHR 0x94, CHR 0xB7]"

definition female :: string where
  "female = [CHR 0xE5, CHR 0xA5, CHR 0xB3]"

definition fullwidth_colon :: string where
  "fullwidth_colon = [CHR 0xEF, CHR 0xBC, CHR 0x9A]"

definition contentKey :: "server \<Rightarrow> string \<Rightarrow> string" where
  "contentKey s date = ''content:'' @ config_Server_Env s @ '':hacker-news:'' @ date"

definition mergedAudioKey :: "string \<Rightarrow> string" where
  "mergedAudioKey date = ''audio/'' @ date @ ''-complete.mp3''"

subsection \<open>Generate: summaries (lines 639 to 667)\<close>

fun summarize :: "server \<Rightarrow> Story list \<Rightarrow> string list \<Rightarrow> trace \<Rightarrow> string list \<times> trace" where
  "summarize s [] storyTexts t = (storyTexts, t)"
| "summarize s (story # stories) storyTexts t =
    (case call_text s (HnGetStoryContent story (config_OpenAI_MaxTokens s)) t of
       (None, t1) \<Rightarrow> summarize s stories storyTexts t1
     | (Some storyContent, t1) \<Rightarrow>
        (case call_text s (AiGenerateStoryText storyContent) t1 of
           (None, t2) \<Rightarrow> summarize s stories storyTexts t2
         | (Some text, t2) \<Rightarrow>
             summarize s stories (storyTexts @ [text])
               (snd (perform s (TimeSleep (2 * Second)) t2))))"

subsection \<open>Generate: podcast, blog, intro and the first write (lines 669 to 722)\<close>

definition generate_texts ::
  "server \<Rightarrow> string \<Rightarrow> string list \<Rightarrow> trace \<Rightarrow> content option \<times> trace" where
  "generate_texts s key storyTexts t =
    (case call_text s (AiGeneratePodcastContent storyTexts) t of
       (None, t1) \<Rightarrow> (None, t1)
     | (Some podcastContent, t1) \<Rightarrow>
    (case call_text s (AiGenerateBlogContent storyTexts) t1 of
       (None, t2) \<Rightarrow> (None, t2)
     | (Some blogContent, t2) \<Rightarrow>
    (case call_text s (AiGenerateIntroContent podcastContent) t2 of
       (None, t3) \<Rightarrow> (None, t3)
     | (Some introContent, t3) \<Rightarrow>
        (let c = \<lparr>Intro = introContent, Podcast = podcastContent, Blog = blogContent,
                   AudioURL = [], AudioFiles = []\<rparr>
         in case json_Marshal s c of
              None \<Rightarrow> (None, t3)
            | Some contentData \<Rightarrow>
               (case call_text s (MinioUploadFile key contentData ''application/json'') t3 of
                  (None, t4) \<Rightarrow> (None, t4)
                | (Some url, t4) \<Rightarrow> (Some c, t4))))))"

definition generate ::
  "server \<Rightarrow> string \<Rightarrow> int \<Rightarrow> string \<Rightarrow> trace \<Rightarrow> content option \<times> trace" where
  "generate s date maxItems key t =
    (case call_stories s (HnGetTopStories date maxItems) t of
       (None, t1) \<Rightarrow> (None, t1)
     | (Some stories, t1) \<Rightarrow>
        (case summarize s stories [] t1 of
           (storyTexts, t2) \<Rightarrow>
             if length storyTexts = 0 then (None, t2)
             else generate_texts s key storyTexts t2))"

subsection \<open>Decide: load the stored artifact (lines 723 to 749)\<close>

definition load ::
  "server \<Rightarrow> string \<Rightarrow> bool \<Rightarrow> trace \<Rightarrow> content option \<times> trace" where
  "load s key forceAudio t =
    (case call_text s (MinioDownloadFile key) t of
       (None, t1) \<Rightarrow> (None, t1)
     | (Some contentData, t1) \<Rightarrow>
        (case json_Unmarshal s contentData of
           None \<Rightarrow> (None, t1)
         | Some c \<Rightarrow>
            if AudioURL c \<noteq> [] \<and> \<not> forceAudio then (None, t1) else (Some c, t1)))"

subsection \<open>Synthesize (lines 751 to 836)\<close>

text \<open>The speaker and the text of one line of the script (lines 762 to 774). \<open>conversation[idx+1:]\<close>
  slices at a byte index.\<close>

definition turn_speaker :: "string \<Rightarrow> string" where
  "turn_speaker conversation =
    (if HasPrefix conversation (male @ '':'') \<or> HasPrefix conversation (male @ fullwidth_colon)
     then male else female)"

definition turn_text :: "string \<Rightarrow> string" where
  "turn_text conversation =
    (case IndexAny conversation ('':'' @ fullwidth_colon) of
       None \<Rightarrow> conversation
     | Some idx \<Rightarrow> TrimSpace (drop (idx + 1) conversation))"

fun synth_turns :: "server \<Rightarrow> string list \<Rightarrow> string list \<Rightarrow> trace \<Rightarrow> string list \<times> trace" where
  "synth_turns s [] audioSegments t = (audioSegments, t)"
| "synth_turns s (conversation # rest) audioSegments t =
    (if TrimSpace conversation = [] then synth_turns s rest audioSegments t
     else
       (case call_text s (TtsSynthesizeSpeech (turn_text conversation)
                            (turn_speaker conversation)) t of
          (None, t1) \<Rightarrow> synth_turns s rest audioSegments t1
        | (Some audio, t1) \<Rightarrow> synth_turns s rest (audioSegments @ [audio]) t1))"

definition merge_upload ::
  "server \<Rightarrow> string \<Rightarrow> content \<Rightarrow> string list \<Rightarrow> trace \<Rightarrow> content \<times> trace" where
  "merge_upload s date c audioSegments t =
    (if length audioSegments > 0 then
       (case call_text s (MergeAudio audioSegments) t of
          (None, t1) \<Rightarrow> (c, t1)
        | (Some mergedAudio, t1) \<Rightarrow>
           (case call_text s (MinioUploadFile (mergedAudioKey date) mergedAudio ''audio/mpeg'') t1 of
              (None, t2) \<Rightarrow> (c, t2)
            | (Some mergedAudioURL, t2) \<Rightarrow> (c\<lparr>AudioURL := mergedAudioURL\<rparr>, t2)))
     else (c, t))"

definition final_write :: "server \<Rightarrow> string \<Rightarrow> content \<Rightarrow> trace \<Rightarrow> trace" where
  "final_write s key c t =
    (case json_Marshal s c of
       None \<Rightarrow> t
     | Some contentData \<Rightarrow> snd (call_text s (MinioUploadFile key contentData ''application/json'') t))"

definition synthesize ::
  "server \<Rightarrow> string \<Rightarrow> string \<Rightarrow> string \<Rightarrow> string \<Rightarrow> content \<Rightarrow> trace \<Rightarrow> trace" where
  "synthesize s date key podcastContent introContent c t =
    (case synth_turns s (Split podcastContent (CHR 0x0A)) [] t of
       (audioSegments, t1) \<Rightarrow>
        (case merge_upload s date c audioSegments t1 of
           (c', t2) \<Rightarrow>
             final_write s key c' (snd (call_text s (TtsSynthesizeSpeech introContent male) t2))))"

subsection \<open>The run\<close>

text \<open>
  \<open>decide_generate\<close> is the run up to line 749: \<open>None\<close> when the run has returned, otherwise
  the \<open>content\<close> with which the audio stage starts. After either branch \<open>podcastContent\<close> and
  \<open>introContent\<close> hold the fields of \<open>content\<close>. The flag \<open>isProcessing\<close> is in the model of
  the handler below.
\<close>

definition decide_generate ::
  "server \<Rightarrow> string \<Rightarrow> int \<Rightarrow> bool \<Rightarrow> bool \<Rightarrow> trace \<Rightarrow> content option \<times> trace" where
  "decide_generate s date maxItems force forceAudio t =
    (case call_flag s (MinioObjectExists (contentKey s date)) t of
       (contentExists, t1) \<Rightarrow>
         if \<not> contentExists \<or> force then generate s date maxItems (contentKey s date) t1
         else load s (contentKey s date) forceAudio t1)"

definition processHackerNews ::
  "server \<Rightarrow> string \<Rightarrow> int \<Rightarrow> bool \<Rightarrow> bool \<Rightarrow> trace \<Rightarrow> trace" where
  "processHackerNews s date maxItems force forceAudio t =
    (case decide_generate s date maxItems force forceAudio t of
       (None, t1) \<Rightarrow> t1
     | (Some c, t1) \<Rightarrow> synthesize s date (contentKey s date) (Podcast c) (Intro c) c t1)"

subsection \<open>Reading a trace\<close>

text \<open>The kinds of calls: those of the loop over the stories, the three text generations
  after it, and those of the audio stage.\<close>

fun loop_call :: "call \<Rightarrow> bool" where
  "loop_call (HnGetStoryContent _ _) = True"
| "loop_call (AiGenerateStoryText _) = True"
| "loop_call (TimeSleep _) = True"
| "loop_call _ = False"

fun text_stage :: "call \<Rightarrow> bool" where
  "text_stage (AiGeneratePodcastContent _) = True"
| "text_stage (AiGenerateBlogContent _) = True"
| "text_stage (AiGenerateIntroContent _) = True"
| "text_stage _ = False"

fun audio_call :: "call \<Rightarrow> bool" where
  "audio_call (TtsSynthesizeSpeech _ _) = True"
| "audio_call (MergeAudio audioSegments) = (audioSegments \<noteq> [])"
| "audio_call (MinioUploadFile _ _ _) = True"
| "audio_call _ = False"

fun is_upload :: "call \<Rightarrow> bool" where
  "is_upload (MinioUploadFile _ _ _) = True"
| "is_upload _ = False"

definition uploads :: "trace \<Rightarrow> trace" where
  "uploads tr = filter (\<lambda>e. is_upload (fst e)) tr"

text \<open>The stories whose content was asked for, the contents that were fetched, the contents
  whose summary was asked for, and the summaries that were generated, each in the order of
  the trace.\<close>

fun fetch_call :: "event \<Rightarrow> Story option" where
  "fetch_call (HnGetStoryContent story _, _) = Some story"
| "fetch_call _ = None"

fun fetched_text :: "event \<Rightarrow> string option" where
  "fetched_text (HnGetStoryContent _ _, r) = text_of r"
| "fetched_text _ = None"

fun summary_call :: "event \<Rightarrow> string option" where
  "summary_call (AiGenerateStoryText x, _) = Some x"
| "summary_call _ = None"

fun summary :: "event \<Rightarrow> string option" where
  "summary (AiGenerateStoryText _, r) = text_of r"
| "summary _ = None"

fun speech :: "event \<Rightarrow> string option" where
  "speech (TtsSynthesizeSpeech _ _, r) = text_of r"
| "speech _ = None"

definition fetch_calls :: "trace \<Rightarrow> Story list" where
  "fetch_calls tr = List.map_filter fetch_call tr"

definition fetched_texts :: "trace \<Rightarrow> string list" where
  "fetched_texts tr = List.map_filter fetched_text tr"

definition summary_calls :: "trace \<Rightarrow> string list" where
  "summary_calls tr = List.map_filter summary_call tr"

definition summaries_of :: "trace \<Rightarrow> string list" where
  "summaries_of tr = List.map_filter summary tr"

definition speeches :: "trace \<Rightarrow> string list" where
  "speeches tr = List.map_filter speech tr"

section \<open>The text generator (internal/ai/client.go)\<close>

record ChatCompletionMessage =
  Role :: string
  MessageContent :: string

record ChatCompletionRequest =
  Model :: string
  Messages :: "ChatCompletionMessage list"
  MaxTokens :: int

text \<open>
  One call of \<open>c.client.CreateChatCompletion\<close> returns an error or a response; of a response
  only the message contents of its \<open>Choices\<close> are read. The client library is the
  environment: its answer may depend on everything that happened before. The events are the
  attempts (with the timeout of their context) and the pauses of \<open>time.Sleep\<close>.
\<close>

datatype api_result = ApiError | ApiResponse "string list"

datatype ai_event =
    CreateChatCompletion ChatCompletionRequest int api_result
  | Sleep int

type_synonym openai = "ai_event list \<Rightarrow> ChatCompletionRequest \<Rightarrow> int \<Rightarrow> api_result"

datatype ai_error = RequestFailed | NoContent | MaxRetriesExceeded | SliceOutOfRange

definition maxRetries :: nat where
  "maxRetries = 3"

text \<open>The loop \<open>for i := 0; i < maxRetries; i++\<close> of \<open>generateText\<close>, from the value \<open>i\<close> on.\<close>

function generateText_loop ::
  "openai \<Rightarrow> ChatCompletionRequest \<Rightarrow> nat \<Rightarrow> ai_event list
     \<Rightarrow> (ai_error + string) \<times> ai_event list" where
  "generateText_loop client req i t =
    (if i < maxRetries then
       (let resp = client t req (2 * Minute);
            t1 = t @ [CreateChatCompletion req (2 * Minute) resp]
        in case resp of
             ApiError \<Rightarrow>
               if i < maxRetries - 1
               then generateText_loop client req (i + 1) (t1 @ [Sleep (int (i + 1) * 2 * Second)])
               else (Inl RequestFailed, t1)
           | ApiResponse choices \<Rightarrow>
               if length choices = 0 then
                 (if i < maxRetries - 1
                  then generateText_loop client req (i + 1)
                         (t1 @ [Sleep (int (i + 1) * 2 * Second)])
                  else (Inl NoContent, t1))
               else (Inr (hd choices), t1))
     else (Inl MaxRetriesExceeded, t))"
  by pat_completeness auto
termination
  by (relation "measure (\<lambda>(client, req, i, t). maxRetries - i)") auto

declare generateText_loop.simps [simp del]

definition generateText ::
  "openai \<Rightarrow> ChatCompletionRequest \<Rightarrow> ai_event list \<Rightarrow> (ai_error + string) \<times> ai_event list" where
  "generateText client req t = generateText_loop client req 0 t"

text \<open>
  Reading the events of a call. The source retries an attempt when the call returned an
  error or a response without choices (\<open>len(resp.Choices) == 0\<close>); the text of a choice is
  not looked at. \<open>retry_trace req i rs\<close> is the sequence of events of attempts with the
  results \<open>rs\<close>, the first of them made with the loop variable at \<open>i\<close>: every attempt has the
  request \<open>req\<close> and a context with a timeout of two minutes, and between an attempt made at
  \<open>i\<close> and the next lies a pause of \<open>(i + 1)\<close> times two seconds.
\<close>

definition attempt_failed :: "api_result \<Rightarrow> bool" where
  "attempt_failed r = (case r of ApiError \<Rightarrow> True | ApiResponse choices \<Rightarrow> length choices = 0)"

fun retry_trace :: "ChatCompletionRequest \<Rightarrow> nat \<Rightarrow> api_result list \<Rightarrow> ai_event list" where
  "retry_trace req i [] = []"
| "retry_trace req i [r] = [CreateChatCompletion req (2 * Minute) r]"
| "retry_trace req i (r # r' # rs) =
     CreateChatCompletion req (2 * Minute) r # Sleep (int (i + 1) * 2 * Second)
       # retry_trace req (i + 1) (r' # rs)"

fun attempt_result :: "ai_event \<Rightarrow> api_result option" where
  "attempt_result (CreateChatCompletion _ _ r) = Some r"
| "attempt_result (Sleep _) = None"

definition attempt_results :: "ai_event list \<Rightarrow> api_result list" where
  "attempt_results tr = List.map_filter attempt_result tr"

text \<open>
  What a call with the request \<open>req\<close>, started after the events \<open>t\<close>, has done when it returns
  \<open>out\<close>: it has added to \<open>t\<close> one to three attempts with their pauses; all attempts but the
  last have failed; after a last attempt that failed, which is the third, the result is
  the error of that attempt; after a last attempt that answered with a choice, the result
  is the text of the first choice.
\<close>

definition retry_discipline ::
  "ChatCompletionRequest \<Rightarrow> ai_event list \<Rightarrow> (ai_error + string) \<times> ai_event list \<Rightarrow> bool" where
  "retry_discipline req t out =
    (let new = drop (length t) (snd out); rs = attempt_results new in
       take (length t) (snd out) = t
     \<and> new = retry_trace req 0 rs
     \<and> 1 \<le> length rs \<and> length rs \<le> maxRetries
     \<and> list_all attempt_failed (butlast rs)
     \<and> (case last rs of
           ApiError \<Rightarrow> length rs = maxRetries \<and> fst out = Inl RequestFailed
         | ApiResponse choices \<Rightarrow>
             if length choices = 0 then length rs = maxRetries \<and> fst out = Inl NoContent
             else fst out = Inr (hd choices)))"

text \<open>A client library whose first two calls fail and whose third call answers, and one
  that answers at once with a choice whose text is empty.\<close>

definition flaky_openai :: openai where
  "flaky_openai t req timeout =
     (if length t < 3 then (if length t = 0 then ApiError else ApiResponse [])
      else ApiResponse [''summary''])"

definition empty_text_openai :: openai where
  "empty_text_openai t req timeout = ApiResponse [[]]"

definition a_request :: ChatCompletionRequest where
  "a_request = \<lparr>Model = ''deepseek-chat'',
                 Messages = [\<lparr>Role = ''user'', MessageContent = ''text''\<rparr>],
                 MaxTokens = 4096\<rparr>"

text \<open>
  The four entry points build a request and end in \<open>return c.generateText(ctx, req)\<close>. The
  prompts are constants of package \<open>ai\<close> whose text is not part of the sources at hand; they
  are fields of the client here. \<open>int64\<close> is the wrap-around of Go's \<open>int\<close> arithmetic, and
  \<open>s[:n]\<close> panics for a negative \<open>n\<close>.
\<close>

record Client =
  client :: openai
  config_Model :: string
  maxTokens :: int
  SummarizeStoryPrompt :: string
  SummarizePodcastPrompt :: string
  SummarizeBlogPrompt :: string
  IntroPrompt :: string

definition int64 :: "int \<Rightarrow> int" where
  "int64 x = (x + 2 ^ 63) mod 2 ^ 64 - 2 ^ 63"

definition chat_request :: "Client \<Rightarrow> string \<Rightarrow> string \<Rightarrow> int \<Rightarrow> ChatCompletionRequest" where
  "chat_request c prompt payload limit =
    \<lparr>Model = config_Model c,
     Messages = [\<lparr>Role = ''system'', MessageContent = prompt\<rparr>,
                 \<lparr>Role = ''user'', MessageContent = payload\<rparr>],
     MaxTokens = limit\<rparr>"

definition GenerateStoryText ::
  "Client \<Rightarrow> string \<Rightarrow> ai_event list \<Rightarrow> (ai_error + string) \<times> ai_event list" where
  "GenerateStoryText c storyContent t =
    (let maxLength = int64 (maxTokens c * 4) in
     if int (length storyContent) > maxLength then
       (if maxLength < 0 then (Inl SliceOutOfRange, t)
        else generateText (client c)
               (chat_request c (SummarizeStoryPrompt c) (take (nat maxLength) storyContent)
                  (maxTokens c)) t)
     else generateText (client c)
            (chat_request c (SummarizeStoryPrompt c) storyContent (maxTokens c)) t)"

fun join_from :: "string \<Rightarrow> string list \<Rightarrow> string" where
  "join_from result [] = result"
| "join_from result (x # xs) =
     join_from (result @ [CHR 0x0A, CHR 0x0A] @ ''---'' @ [CHR 0x0A, CHR 0x0A] @ x) xs"

definition JoinContents :: "string list \<Rightarrow> string" where
  "JoinContents contents =
    (if length contents = 0 then [] else join_from (hd contents) (tl contents))"

definition GeneratePodcastContent ::
  "Client \<Rightarrow> string list \<Rightarrow> ai_event list \<Rightarrow> (ai_error + string) \<times> ai_event list" where
  "GeneratePodcastContent c summaries t =
    generateText (client c)
      (chat_request c (SummarizePodcastPrompt c) (JoinContents summaries) (maxTokens c)) t"

definition GenerateBlogContent ::
  "Client \<Rightarrow> string list \<Rightarrow> ai_event list \<Rightarrow> (ai_error + string) \<times> ai_event list" where
  "GenerateBlogContent c summaries t =
    generateText (client c)
      (chat_request c (SummarizeBlogPrompt c) (JoinContents summaries) (maxTokens c)) t"

definition GenerateIntroContent ::
  "Client \<Rightarrow> string \<Rightarrow> ai_event list \<Rightarrow> (ai_error + string) \<times> ai_event list" where
  "GenerateIntroContent c podcastContent t =
    generateText (client c) (chat_request c (IntroPrompt c) podcastContent 300) t"

text \<open>A client with the flaky library.\<close>

definition a_client :: Client where
  "a_client =
    \<lparr>client = flaky_openai, config_Model = ''deepseek-chat'', maxTokens = 4096,
     SummarizeStoryPrompt = ''summarize'', SummarizePodcastPrompt = ''podcast'',
     SummarizeBlogPrompt = ''blog'', IntroPrompt = ''intro''\<rparr>"

section \<open>The source fetcher (internal/crawler/hackernews.go)\<close>

text \<open>
  The web, as \<open>fetchArticle\<close> and \<open>fetchComments\<close> see it: for a URL, \<open>http.NewRequest\<close> fails,
  or \<open>client.Do\<close> fails, or there is a response with a status code and a body that
  \<open>io.ReadAll\<close> reads or fails to read. \<open>goquery\<close> parses a page or fails, and renders the
  element of class \<open>comment-tree\<close> or fails.
\<close>

datatype http_outcome = RequestInvalid | TransportError | Response int "string option"

record web =
  http_get :: "string \<Rightarrow> http_outcome"
  NewDocumentFromReader_ok :: "string \<Rightarrow> bool"
  comment_tree_Html :: "string \<Rightarrow> string option"

datatype fetch_error =
  CreateRequestFailed | ReadResponseFailed | ParseHTMLFailed | ExtractCommentsFailed

datatype story_error = ArticleFailed fetch_error | CommentsFailed fetch_error | SliceBounds

definition StatusOK :: int where
  "StatusOK = 200"

definition fetchArticle :: "web \<Rightarrow> string \<Rightarrow> fetch_error + string" where
  "fetchArticle w url =
    (case http_get w url of
       RequestInvalid \<Rightarrow> Inl CreateRequestFailed
     | TransportError \<Rightarrow> Inr []
     | Response code body \<Rightarrow>
         if code \<noteq> StatusOK then Inr []
         else (case body of None \<Rightarrow> Inl ReadResponseFailed | Some b \<Rightarrow> Inr b))"

definition fetchComments :: "web \<Rightarrow> string \<Rightarrow> fetch_error + string" where
  "fetchComments w storyID =
    (case http_get w (''https://news.ycombinator.com/item?id='' @ storyID) of
       RequestInvalid \<Rightarrow> Inl CreateRequestFailed
     | TransportError \<Rightarrow> Inr []
     | Response code body \<Rightarrow>
         if code \<noteq> StatusOK then Inr []
         else (case body of
                 None \<Rightarrow> Inl ReadResponseFailed
               | Some b \<Rightarrow>
                   if \<not> NewDocumentFromReader_ok w b then Inl ParseHTMLFailed
                   else (case comment_tree_Html w b of
                           None \<Rightarrow> Inl ExtractCommentsFailed
                         | Some commentsHtml \<Rightarrow> Inr commentsHtml)))"

text \<open>
  \<open>GetStoryContent\<close> runs the two fetches in two goroutines. Each sends its error, if any, to
  \<open>errCh\<close> before it sends its (then empty) text; all three channels are buffered, so no
  send blocks. After both texts are received, \<open>select\<close> takes the first error that was sent:
  \<open>article_first\<close> says which goroutine sent first, the only trace of the scheduling.
\<close>

definition errCh :: "bool \<Rightarrow> fetch_error + string \<Rightarrow> fetch_error + string \<Rightarrow> story_error list" where
  "errCh article_first a c =
    (let ea = (case a of Inl e \<Rightarrow> [ArticleFailed e] | Inr _ \<Rightarrow> []);
         ec = (case c of Inl e \<Rightarrow> [CommentsFailed e] | Inr _ \<Rightarrow> [])
     in if article_first then ea @ ec else ec @ ea)"

definition received :: "fetch_error + string \<Rightarrow> string" where
  "received r = (case r of Inl _ \<Rightarrow> [] | Inr x \<Rightarrow> x)"

text \<open>\<open>if len(x) > maxTokens*4 { x = x[:maxTokens*4] }\<close>; \<open>None\<close> is the panic of a negative bound
  (\<open>max_tokens\<close> is the parameter \<open>maxTokens\<close>).\<close>

definition cap :: "int \<Rightarrow> string \<Rightarrow> string option" where
  "cap max_tokens x =
    (let limit = int64 (max_tokens * 4) in
     if int (length x) > limit then (if limit < 0 then None else Some (take (nat limit) x))
     else Some x)"

fun Join :: "string list \<Rightarrow> string \<Rightarrow> string" where
  "Join [] sep = []"
| "Join [x] sep = x"
| "Join (x # y # ys) sep = x @ sep @ Join (y # ys) sep"

definition separator :: string where
  "separator = [CHR 0x0A, CHR 0x0A] @ ''---'' @ [CHR 0x0A, CHR 0x0A]"

definition GetStoryContent :: "web \<Rightarrow> bool \<Rightarrow> Story \<Rightarrow> int \<Rightarrow> story_error + string" where
  "GetStoryContent w article_first story max_tokens =
    (let a = fetchArticle w (URL story);
         c = fetchComments w (ID story);
         article = received a;
         comments = received c
     in case errCh article_first a c of
          err # _ \<Rightarrow> Inl err
        | [] \<Rightarrow>
           (let r1 = (if Title story \<noteq> []
                      then [''<title>'' @ [CHR 0x0A] @ Title story @ [CHR 0x0A] @ ''</title>'']
                      else [])
            in if article \<noteq> [] \<and> cap max_tokens article = None then Inl SliceBounds
               else
                 (let r2 = (if article \<noteq> []
                            then r1 @ [''<article>'' @ [CHR 0x0A] @ the (cap max_tokens article)
                                         @ [CHR 0x0A] @ ''</article>'']
                            else r1)
                  in if comments \<noteq> [] \<and> cap max_tokens comments = None then Inl SliceBounds
                     else
                       (let r3 = (if comments \<noteq> []
                                  then r2 @ [''<comments>'' @ [CHR 0x0A]
                                               @ the (cap max_tokens comments)
                                               @ [CHR 0x0A] @ ''</comments>'']
                                  else r2)
                        in Inr (Join r3 separator)))))"

section \<open>The audio merge (\<open>mergeAudioBytes\<close>, config.go)\<close>

text \<open>
  The operating system, as \<open>mergeAudioBytes\<close> sees it: \<open>os.MkdirTemp\<close> gives a fresh, empty
  directory or fails; \<open>os.Create\<close> and \<open>os.WriteFile\<close> succeed or fail; a write to the open
  list file puts some of its bytes into the file (all of them when it succeeds); the ffmpeg
  process may fail for reasons of its own. The files of the temporary directory are a map
  from paths to contents. The deferred \<open>os.RemoveAll\<close> and \<open>fileList.Close\<close> do not change the
  value that is returned.
\<close>

type_synonym files = "string \<rightharpoonup> string"

record os =
  MkdirTemp :: "string option"
  Create_ok :: "string \<Rightarrow> bool"
  WriteFile_ok :: "string \<Rightarrow> bool"
  Fprintf_written :: "string \<Rightarrow> nat"
  ffmpeg_fails :: "files \<Rightarrow> string list \<Rightarrow> bool"

datatype merge_error =
  MkdirTempFailed | CreateFailed | WriteFileFailed | FfmpegFailed | ReadFileFailed

text \<open>\<open>%d\<close> of a loop index, and \<open>filepath.Join\<close> of a clean directory and a file name.\<close>

definition digit :: "nat \<Rightarrow> char" where
  "digit d = char_of (48 + d)"

function itoa :: "nat \<Rightarrow> string" where
  "itoa n = (if n < 10 then [digit n] else itoa (n div 10) @ [digit (n mod 10)])"
  by pat_completeness auto
termination
  by (relation "measure (\<lambda>n. n)") auto

declare itoa.simps [simp del]

definition filepath_Join :: "string \<Rightarrow> string \<Rightarrow> string" where
  "filepath_Join dir name = dir @ ''/'' @ name"

definition fileListPath :: "string \<Rightarrow> string" where
  "fileListPath tempDir = filepath_Join tempDir ''filelist.txt''"

definition segPath :: "string \<Rightarrow> nat \<Rightarrow> string" where
  "segPath tempDir i = filepath_Join tempDir (''seg'' @ itoa i @ ''.mp3'')"

definition outPath :: "string \<Rightarrow> string" where
  "outPath tempDir = filepath_Join tempDir ''merged.mp3''"

definition quote :: char where
  "quote = CHR 0x27"

definition newline :: char where
  "newline = CHR 0x0A"

definition manifest_line :: "string \<Rightarrow> string" where
  "manifest_line path = ''file '' @ [quote] @ path @ [quote, newline]"

text \<open>
  \<open>fmt.Fprintf(fileList, ...)\<close>: the bytes that the environment lets through are appended to
  the file. The source reads neither the result of \<open>Fprintf\<close> nor that of \<open>fileList.Sync\<close>, so
  the model has no branch on them: a line that is lost or cut is not noticed.
\<close>

definition Fprintf :: "os \<Rightarrow> files \<Rightarrow> string \<Rightarrow> string \<Rightarrow> files" where
  "Fprintf e fs path txt =
    fs(path \<mapsto> (case fs path of None \<Rightarrow> [] | Some old \<Rightarrow> old) @ take (Fprintf_written e txt) txt)"

text \<open>The loop \<open>for i, segment := range audioSegments\<close>, from the index \<open>i\<close> on.\<close>

fun write_segments :: "os \<Rightarrow> string \<Rightarrow> string list \<Rightarrow> nat \<Rightarrow> files \<Rightarrow> files option" where
  "write_segments e tempDir [] i fs = Some fs"
| "write_segments e tempDir (segment # rest) i fs =
    (if \<not> WriteFile_ok e (segPath tempDir i) then None
     else write_segments e tempDir rest (i + 1)
            (Fprintf e (fs(segPath tempDir i \<mapsto> segment)) (fileListPath tempDir)
               (manifest_line (segPath tempDir i))))"

text \<open>\<open>merge_prepare\<close> is \<open>mergeAudioBytes\<close> up to the point where ffmpeg is started: the
  temporary directory and its files, or the error returned before.\<close>

definition merge_prepare :: "os \<Rightarrow> string list \<Rightarrow> merge_error + (string \<times> files)" where
  "merge_prepare e audioSegments =
    (case MkdirTemp e of
       None \<Rightarrow> Inl MkdirTempFailed
     | Some tempDir \<Rightarrow>
         if \<not> Create_ok e (fileListPath tempDir) then Inl CreateFailed
         else (case write_segments e tempDir audioSegments 0 [fileListPath tempDir \<mapsto> []] of
                 None \<Rightarrow> Inl WriteFileFailed
               | Some fs \<Rightarrow> Inr (tempDir, fs)))"

definition ffmpeg_args :: "string \<Rightarrow> string list" where
  "ffmpeg_args tempDir =
    [''-y'', ''-f'', ''concat'', ''-safe'', ''0'', ''-i'', fileListPath tempDir,
     ''-c'', ''copy'', outPath tempDir]"

text \<open>
  The program that is run, \<open>ffmpeg -y -f concat -safe 0 -i LIST -c copy OUT\<close>, is not part of
  the repository. It is modelled by what its concat demuxer does with a list of this form:
  every line of the list that is not empty must read \<open>file 'PATH'\<close> (inside the quotes every
  character but the quote stands for itself); a list that names no file is rejected, and so
  is a list that names a file that cannot be read; otherwise the files are read in the
  order of the list and the output holds their audio in that order. Copying the streams
  (\<open>-c copy\<close>) keeps the audio as it is; the output is idealised as the contents of the files
  one after the other.
\<close>

definition parse_file_line :: "string \<Rightarrow> string option" where
  "parse_file_line l =
    (if 7 \<le> length l \<and> take 6 l = ''file '' @ [quote] \<and> last l = quote
        \<and> quote \<notin> set (butlast (drop 6 l))
     then Some (butlast (drop 6 l)) else None)"

fun parse_script :: "string list \<Rightarrow> string list option" where
  "parse_script [] = Some []"
| "parse_script (l # ls) =
    (if l = [] then parse_script ls
     else (case parse_file_line l of
             None \<Rightarrow> None
           | Some path \<Rightarrow> (case parse_script ls of None \<Rightarrow> None | Some ps \<Rightarrow> Some (path # ps))))"

definition ffmpeg_concat :: "files \<Rightarrow> string \<Rightarrow> string \<Rightarrow> files option" where
  "ffmpeg_concat fs listPath out =
    (case fs listPath of
       None \<Rightarrow> None
     | Some script \<Rightarrow>
         (case parse_script (Split script newline) of
            None \<Rightarrow> None
          | Some paths \<Rightarrow>
              if paths = [] \<or> list_ex (\<lambda>path. fs path = None) paths then None
              else Some (fs(out \<mapsto> concat (map (\<lambda>path. case fs path of None \<Rightarrow> [] | Some x \<Rightarrow> x)
                                                 paths)))))"

definition ffmpeg_run :: "os \<Rightarrow> files \<Rightarrow> string list \<Rightarrow> files option" where
  "ffmpeg_run e fs args =
    (if ffmpeg_fails e fs args then None
     else if length args = 10
             \<and> take 6 args = [''-y'', ''-f'', ''concat'', ''-safe'', ''0'', ''-i'']
             \<and> args ! 7 = ''-c'' \<and> args ! 8 = ''copy''
          then ffmpeg_concat fs (args ! 6) (args ! 9)
          else None)"

definition mergeAudioBytes :: "os \<Rightarrow> string list \<Rightarrow> merge_error + string" where
  "mergeAudioBytes e audioSegments =
    (case merge_prepare e audioSegments of
       Inl err \<Rightarrow> Inl err
     | Inr (tempDir, fs) \<Rightarrow>
         (case ffmpeg_run e fs (ffmpeg_args tempDir) of
            None \<Rightarrow> Inl FfmpegFailed
          | Some fs' \<Rightarrow>
              (case fs' (outPath tempDir) of
                 None \<Rightarrow> Inl ReadFileFailed
               | Some merged \<Rightarrow> Inr merged)))"

text \<open>An operating system in which everything succeeds, and one in which the write of the
  second line of the list fails, so that the line does not reach the file.\<close>

definition plain_os :: os where
  "plain_os =
    \<lparr>MkdirTemp = Some ''/tmp/audio-merge1'',
     Create_ok = (\<lambda>_. True),
     WriteFile_ok = (\<lambda>_. True),
     Fprintf_written = (\<lambda>txt. length txt),
     ffmpeg_fails = (\<lambda>fs args. False)\<rparr>"

definition lossy_os :: os where
  "lossy_os =
    \<lparr>MkdirTemp = Some ''/tmp/audio-merge1'',
     Create_ok = (\<lambda>_. True),
     WriteFile_ok = (\<lambda>_. True),
     Fprintf_written =
       (\<lambda>txt. if txt = manifest_line ''/tmp/audio-merge1/seg1.mp3'' then 0 else length txt),
     ffmpeg_fails = (\<lambda>fs args. False)\<rparr>"

section \<open>Admission of runs (\<open>processHandler\<close> and the flag \<open>isProcessing\<close>, config.go)\<close>

text \<open>
  The handler and the runs it starts as goroutines, step by step. A run is at one of the
  places \<open>Started\<close> (the goroutine exists), \<open>Generate\<close> or \<open>Load\<close> (after the branch of line 628)
  and \<open>Returned\<close>. The state holds the flag \<open>isProcessing\<close>, the dates for which the store has
  content, and the runs. The steps are the ones that read or write the flag or decide the
  branch:
  \<^item> \<open>Request\<close>: \<open>processHandler\<close> for a well-formed request. It sets the flag and starts the
    goroutine; it reads nothing.
  \<^item> \<open>Decide\<close>: the run sets the flag (line 599), asks whether the content exists and takes
    the branch of line 628.
  \<^item> \<open>Return\<close>: the run returns, having written the content or not; the deferred functions
    clear the flag.
\<close>

datatype stage = Started | Generate | Load | Returned

record run =
  run_date :: string
  run_force :: bool
  run_stage :: stage

record state =
  isProcessing :: bool
  stored :: "string list"
  runs :: "run list"

datatype action = Request string bool | Decide nat | Return nat bool

fun step :: "action \<Rightarrow> state \<Rightarrow> state" where
  "step (Request date force) st =
     st\<lparr>isProcessing := True,
        runs := runs st @ [\<lparr>run_date = date, run_force = force, run_stage = Started\<rparr>]\<rparr>"
| "step (Decide i) st =
     (if i < length (runs st) \<and> run_stage (runs st ! i) = Started then
        (let r = runs st ! i;
             contentExists = (run_date r \<in> set (stored st))
         in st\<lparr>isProcessing := True,
               runs := (runs st)[i := r\<lparr>run_stage :=
                          (if \<not> contentExists \<or> run_force r then Generate else Load)\<rparr>]\<rparr>)
      else st)"
| "step (Return i wrote) st =
     (if i < length (runs st) \<and> run_stage (runs st ! i) \<in> {Generate, Load} then
        (let r = runs st ! i
         in st\<lparr>isProcessing := False,
               stored := (if wrote then run_date r # stored st else stored st),
               runs := (runs st)[i := r\<lparr>run_stage := Returned\<rparr>]\<rparr>)
      else st)"

definition exec :: "action list \<Rightarrow> state \<Rightarrow> state" where
  "exec as st = fold step as st"

definition generating :: "string \<Rightarrow> state \<Rightarrow> nat" where
  "generating date st =
     length (filter (\<lambda>r. run_date r = date \<and> run_stage r = Generate) (runs st))"

definition idle :: state where
  "idle = \<lparr>isProcessing = False, stored = [], runs = []\<rparr>"

section \<open>Example environments\<close>

definition a_content :: content where
  "a_content = \<lparr>Intro = ''intro'', Podcast = male @ '': hi'', Blog = ''blog'',
                 AudioURL = ''/hacker-news/audio/2024-05-01-complete.mp3'', AudioFiles = []\<rparr>"

definition a_story :: "string \<Rightarrow> Story" where
  "a_story n = \<lparr>ID = n, Title = ''story '' @ n, URL = ''https://example.org/'' @ n,
              HackerNewsURL = ''https://news.ycombinator.com/item?id='' @ n,
              Content = [], Comments = []\<rparr>"

text \<open>A store that holds a complete artifact for every date; nothing else answers.\<close>

definition archive_server :: server where
  "archive_server =
    \<lparr>respond = (\<lambda>t c. case c of MinioObjectExists _ \<Rightarrow> Flag True
                        | MinioDownloadFile _ \<Rightarrow> Bytes ''{}''
                        | _ \<Rightarrow> Failed),
     json_Marshal = (\<lambda>c. Some (Intro c @ ''|'' @ Podcast c @ ''|'' @ Blog c @ ''|'' @ AudioURL c)),
     json_Unmarshal = (\<lambda>d. Some a_content),
     config_Server_Env = ''production'',
     config_OpenAI_MaxTokens = 4096\<rparr>"

text \<open>A store that holds an artifact without audio, and a speech service that always fails.\<close>

definition mute_server :: server where
  "mute_server =
    \<lparr>respond = (\<lambda>t c. case c of MinioObjectExists _ \<Rightarrow> Flag True
                        | MinioDownloadFile _ \<Rightarrow> Bytes ''{}''
                        | MinioUploadFile k _ _ \<Rightarrow> Bytes (''/hacker-news/'' @ k)
                        | _ \<Rightarrow> Failed),
     json_Marshal = (\<lambda>c. Some (Intro c @ ''|'' @ Podcast c @ ''|'' @ Blog c @ ''|'' @ AudioURL c)),
     json_Unmarshal = (\<lambda>d. Some (a_content\<lparr>AudioURL := []\<rparr>)),
     config_Server_Env = ''production'',
     config_OpenAI_MaxTokens = 4096\<rparr>"

text \<open>An empty store, five stories of which the content of the second cannot be fetched and
  the fourth cannot be summarized, and a text generator that fails on the podcast script.\<close>

definition partial_server :: server where
  "partial_server =
    \<lparr>respond = (\<lambda>t c. case c of
                          MinioObjectExists _ \<Rightarrow> Flag False
                        | HnGetTopStories _ _ \<Rightarrow>
                            Stories [a_story ''1'', a_story ''2'', a_story ''3'', a_story ''4'', a_story ''5'']
                        | HnGetStoryContent st _ \<Rightarrow>
                            (if ID st = ''2'' then Failed else Bytes (''c'' @ ID st))
                        | AiGenerateStoryText x \<Rightarrow>
                            (if x = ''c4'' then Failed else Bytes (''s'' @ tl x))
                        | TimeSleep _ \<Rightarrow> Done
                        | _ \<Rightarrow> Failed),
     json_Marshal = (\<lambda>c. Some (Intro c @ ''|'' @ Podcast c @ ''|'' @ Blog c @ ''|'' @ AudioURL c)),
     json_Unmarshal = (\<lambda>d. None),
     config_Server_Env = ''production'',
     config_OpenAI_MaxTokens = 4096\<rparr>"

text \<open>A web in which every request gets the status 200 and a body that cannot be read, and
  a web in which no request gets through.\<close>

definition broken_body_web :: web where
  "broken_body_web =
    \<lparr>http_get = (\<lambda>url. Response 200 None),
     NewDocumentFromReader_ok = (\<lambda>b. True),
     comment_tree_Html = (\<lambda>b. Some b)\<rparr>"

definition offline_web :: web where
  "offline_web =
    \<lparr>http_get = (\<lambda>url. TransportError),
     NewDocumentFromReader_ok = (\<lambda>b. True),
     comment_tree_Html = (\<lambda>b. Some b)\<rparr>"

section \<open>Properties\<close>

subsection \<open>Evaluation of the string functions\<close>

lemmas utf8_eval = DecodeRuneInString_def DecodeLastRuneInString_def byte_at_def byte_def Let_def
  RuneError_def IsSpace_def last_start_def RuneStart_def scan_back.simps
  TrimSpace_def TrimLeftSpace.simps TrimRightSpace.simps runes.simps index_rune_in.simps
  IndexAny_def HasPrefix_def

lemmas turn_eval = turn_text_def turn_speaker_def male_def female_def fullwidth_colon_def

subsection \<open>The turns of a script\<close>

text \<open>The speech calls of the loop over the lines do not depend on the replies: one call per
  line that is not blank, in line order, with the text and speaker computed from the line.\<close>

lemma synth_turns_calls:
  "map fst (snd (synth_turns s lines segs t)) =
     map fst t @ map (\<lambda>l. TtsSynthesizeSpeech (turn_text l) (turn_speaker l))
                   (filter (\<lambda>l. TrimSpace l \<noteq> []) lines)"
  by (induction lines arbitrary: segs t)
     (simp_all add: call_text_def perform_def split: option.splits)

lemma example_script_lines:
  "Split (male @ '': hello'' @ [CHR 0x0A] @ female @ fullwidth_colon @ ''world''
            @ [CHR 0x0A, CHR 0x0A]) (CHR 0x0A)
    = [male @ '': hello'', female @ fullwidth_colon @ ''world'', [], []]"
  by (simp add: male_def female_def fullwidth_colon_def)

lemma example_line1:
  "TrimSpace (male @ '': hello'') \<noteq> []"
  "turn_text (male @ '': hello'') = ''hello''"
  "turn_speaker (male @ '': hello'') = male"
  by (simp_all add: utf8_eval turn_eval)

lemma example_line2:
  "TrimSpace (female @ fullwidth_colon @ ''world'') \<noteq> []"
  "turn_text (female @ fullwidth_colon @ ''world'') = [CHR 0xBC, CHR 0x9A] @ ''world''"
  "turn_speaker (female @ fullwidth_colon @ ''world'') = female"
  by (simp_all add: utf8_eval turn_eval)

lemma TrimSpace_empty: "TrimSpace [] = []"
  by (simp add: utf8_eval)

text \<open>
  C2. On the script of the specification (a male line with an ASCII colon, a female line with a
  full-width colon, an empty line) the loop drops the empty lines and makes two speech calls,
  for the speakers male and female. The text of the first is \<open>hello\<close>. The text of the second
  is not \<open>world\<close>: \<open>conversation[idx+1:]\<close> removes one byte of the three-byte full-width colon,
  so the bytes BC 9A stay in front of \<open>world\<close>, and \<open>TrimSpace\<close> does not remove them.
\<close>

theorem C2_example_turns:
  "map fst (snd (synth_turns s
      (Split (male @ '': hello'' @ [CHR 0x0A] @ female @ fullwidth_colon @ ''world''
                @ [CHR 0x0A, CHR 0x0A]) (CHR 0x0A)) [] []))
   = [TtsSynthesizeSpeech ''hello'' male,
      TtsSynthesizeSpeech ([CHR 0xBC, CHR 0x9A] @ ''world'') female]"
  by (simp only: synth_turns_calls example_script_lines)
     (simp add: example_line1 example_line2 TrimSpace_empty)

text \<open>
  C10. A line that does not begin with the male label and whose first colon is a full-width
  colon: the speaker is female, and the text that is synthesized is not what follows the
  colon, since the last two bytes of the colon are kept in front of it (and shield the blank
  after them from \<open>TrimSpace\<close>). A line without any colon is synthesized whole, untrimmed.
\<close>

theorem C10_fullwidth_colon_line:
  "turn_speaker (''Note'' @ fullwidth_colon @ '' hi'') = female
   \<and> turn_text (''Note'' @ fullwidth_colon @ '' hi'') = [CHR 0xBC, CHR 0x9A] @ '' hi''
   \<and> turn_text (''Note: hi'') = ''hi''
   \<and> turn_text ('' hi '') = '' hi ''"
  by (simp add: utf8_eval turn_eval)

subsection \<open>The two loops\<close>

lemma trace_reads_Nil [simp]:
  "fetch_calls [] = []" "fetched_texts [] = []" "summary_calls [] = []" "summaries_of [] = []"
  "speeches [] = []" "uploads [] = []"
  by (simp_all add: fetch_calls_def fetched_texts_def summary_calls_def summaries_of_def
      speeches_def uploads_def List.map_filter_simps)

lemma trace_reads_Cons:
  "fetch_calls (e # tr) = (case fetch_call e of None \<Rightarrow> fetch_calls tr | Some x \<Rightarrow> x # fetch_calls tr)"
  "fetched_texts (e # tr) = (case fetched_text e of None \<Rightarrow> fetched_texts tr | Some x \<Rightarrow> x # fetched_texts tr)"
  "summary_calls (e # tr) = (case summary_call e of None \<Rightarrow> summary_calls tr | Some x \<Rightarrow> x # summary_calls tr)"
  "summaries_of (e # tr) = (case summary e of None \<Rightarrow> summaries_of tr | Some x \<Rightarrow> x # summaries_of tr)"
  "speeches (e # tr) = (case speech e of None \<Rightarrow> speeches tr | Some x \<Rightarrow> x # speeches tr)"
  unfolding fetch_calls_def fetched_texts_def summary_calls_def summaries_of_def speeches_def
  by (simp_all add: List.map_filter_simps)

lemma uploads_Cons:
  "uploads (e # tr) = (if is_upload (fst e) then e # uploads tr else uploads tr)"
  by (simp add: uploads_def)

lemma uploads_append: "uploads (a @ b) = uploads a @ uploads b"
  by (simp add: uploads_def)

lemma summarize_spec:
  "\<exists>new. summarize s stories acc t = (acc @ summaries_of new, t @ new)
        \<and> fetch_calls new = stories
        \<and> summary_calls new = fetched_texts new
        \<and> (\<forall>e \<in> set new. loop_call (fst e))"
proof (induction stories arbitrary: acc t)
  case Nil
  show ?case by (rule exI [of _ "[]"]) simp
next
  case (Cons story rest)
  define c1 where "c1 = HnGetStoryContent story (config_OpenAI_MaxTokens s)"
  define e1 where "e1 = (c1, respond s t c1)"
  show ?case
  proof (cases "text_of (respond s t c1)")
    case None
    from Cons.IH [of acc "t @ [e1]"] obtain new where
      new: "summarize s rest acc (t @ [e1]) = (acc @ summaries_of new, (t @ [e1]) @ new)"
        "fetch_calls new = rest" "summary_calls new = fetched_texts new"
        "\<forall>e \<in> set new. loop_call (fst e)"
      by blast
    show ?thesis
      by (rule exI [of _ "e1 # new"])
        (use None new in \<open>simp add: call_text_def perform_def trace_reads_Cons e1_def c1_def\<close>)
  next
    case (Some storyContent)
    define c2 where "c2 = AiGenerateStoryText storyContent"
    define e2 where "e2 = (c2, respond s (t @ [e1]) c2)"
    show ?thesis
    proof (cases "text_of (respond s (t @ [e1]) c2)")
      case None
      from Cons.IH [of acc "t @ [e1, e2]"] obtain new where
        new: "summarize s rest acc (t @ [e1, e2]) = (acc @ summaries_of new, (t @ [e1, e2]) @ new)"
          "fetch_calls new = rest" "summary_calls new = fetched_texts new"
          "\<forall>e \<in> set new. loop_call (fst e)"
        by blast
      show ?thesis
        by (rule exI [of _ "e1 # e2 # new"])
          (use Some None new in
            \<open>simp add: call_text_def perform_def trace_reads_Cons e1_def c1_def e2_def c2_def\<close>)
    next
      case summ: (Some sm)
      define c3 where "c3 = TimeSleep (2 * Second)"
      define e3 where "e3 = (c3, respond s (t @ [e1, e2]) c3)"
      from Cons.IH [of "acc @ [sm]" "t @ [e1, e2, e3]"] obtain new where
        new: "summarize s rest (acc @ [sm]) (t @ [e1, e2, e3])
                = ((acc @ [sm]) @ summaries_of new, (t @ [e1, e2, e3]) @ new)"
          "fetch_calls new = rest" "summary_calls new = fetched_texts new"
          "\<forall>e \<in> set new. loop_call (fst e)"
        by blast
      show ?thesis
        by (rule exI [of _ "e1 # e2 # e3 # new"])
          (use Some summ new in
            \<open>simp add: call_text_def perform_def trace_reads_Cons e1_def c1_def e2_def c2_def
               e3_def c3_def\<close>)
    qed
  qed
qed

lemma synth_turns_spec:
  "\<exists>new. synth_turns s lines segs t = (segs @ speeches new, t @ new)
        \<and> (\<forall>e \<in> set new. \<exists>x y. fst e = TtsSynthesizeSpeech x y)"
proof (induction lines arbitrary: segs t)
  case Nil
  show ?case by (rule exI [of _ "[]"]) simp
next
  case (Cons conversation rest)
  define c1 where "c1 = TtsSynthesizeSpeech (turn_text conversation) (turn_speaker conversation)"
  define e1 where "e1 = (c1, respond s t c1)"
  show ?case
  proof (cases "TrimSpace conversation = []")
    case True
    with Cons.IH [of segs t] show ?thesis by simp
  next
    case False
    show ?thesis
    proof (cases "text_of (respond s t c1)")
      case None
      from Cons.IH [of segs "t @ [e1]"] obtain new where
        new: "synth_turns s rest segs (t @ [e1]) = (segs @ speeches new, (t @ [e1]) @ new)"
          "\<forall>e \<in> set new. \<exists>x y. fst e = TtsSynthesizeSpeech x y"
        by blast
      show ?thesis
        by (rule exI [of _ "e1 # new"])
          (use False None new in
            \<open>simp add: call_text_def perform_def trace_reads_Cons e1_def c1_def\<close>)
    next
      case (Some audio)
      from Cons.IH [of "segs @ [audio]" "t @ [e1]"] obtain new where
        new: "synth_turns s rest (segs @ [audio]) (t @ [e1])
                = ((segs @ [audio]) @ speeches new, (t @ [e1]) @ new)"
          "\<forall>e \<in> set new. \<exists>x y. fst e = TtsSynthesizeSpeech x y"
        by blast
      show ?thesis
        by (rule exI [of _ "e1 # new"])
          (use False Some new in
            \<open>simp add: call_text_def perform_def trace_reads_Cons e1_def c1_def\<close>)
    qed
  qed
qed

subsection \<open>The stages of a run\<close>

lemma text_of_Some: "text_of r = Some x \<longleftrightarrow> r = Bytes x"
  by (cases r) (simp_all add: text_of_def)

lemma loop_call_kinds:
  "loop_call c \<Longrightarrow> \<not> text_stage c \<and> \<not> is_upload c \<and> (\<forall>x. c \<noteq> MergeAudio x)"
  by (cases c) simp_all

lemma audio_call_kinds: "audio_call c \<Longrightarrow> \<not> text_stage c"
  by (cases c) simp_all

lemma final_write_spec:
  "final_write s key c t =
    (case json_Marshal s c of
       None \<Rightarrow> t
     | Some contentData \<Rightarrow>
         t @ [(MinioUploadFile key contentData ''application/json'',
               respond s t (MinioUploadFile key contentData ''application/json''))])"
  by (simp add: final_write_def call_text_def perform_def split: option.splits)

lemma generate_texts_spec:
  assumes "generate_texts s key sts t = (res, t')"
  shows "\<exists>new. t' = t @ new \<and> new \<noteq> [] \<and> fst (hd new) = AiGeneratePodcastContent sts
     \<and> (\<forall>e \<in> set new. text_stage (fst e) \<or> is_upload (fst e))
     \<and> (\<forall>c r. (c, r) \<in> set new \<and> text_stage c \<and> text_of r = None
            \<longrightarrow> last new = (c, r) \<and> uploads new = [] \<and> res = None)
     \<and> (\<forall>c. res = Some c \<longrightarrow>
            AudioURL c = [] \<and> AudioFiles c = []
          \<and> (AiGeneratePodcastContent sts, Bytes (Podcast c)) \<in> set new
          \<and> (AiGenerateBlogContent sts, Bytes (Blog c)) \<in> set new
          \<and> (AiGenerateIntroContent (Podcast c), Bytes (Intro c)) \<in> set new)"
proof -
  define c1 where "c1 = AiGeneratePodcastContent sts"
  define e1 where "e1 = (c1, respond s t c1)"
  show ?thesis
  proof (cases "text_of (respond s t c1)")
    case None
    then have "res = None" "t' = t @ [e1]"
      using assms by (simp_all add: generate_texts_def call_text_def perform_def e1_def c1_def)
    then show ?thesis
      using None by (intro exI [of _ "[e1]"]) (simp add: e1_def c1_def uploads_def)
  next
    case p: (Some podcastContent)
    define c2 where "c2 = AiGenerateBlogContent sts"
    define e2 where "e2 = (c2, respond s (t @ [e1]) c2)"
    show ?thesis
    proof (cases "text_of (respond s (t @ [e1]) c2)")
      case None
      then have "res = None" "t' = t @ [e1, e2]"
        using assms p
        by (simp_all add: generate_texts_def call_text_def perform_def e1_def c1_def e2_def c2_def)
      then show ?thesis
        using None p
        by (intro exI [of _ "[e1, e2]"]) (auto simp: e1_def c1_def e2_def c2_def uploads_def)
    next
      case b: (Some blogContent)
      define c3 where "c3 = AiGenerateIntroContent podcastContent"
      define e3 where "e3 = (c3, respond s (t @ [e1, e2]) c3)"
      show ?thesis
      proof (cases "text_of (respond s (t @ [e1, e2]) c3)")
        case None
        then have "res = None" "t' = t @ [e1, e2, e3]"
          using assms p b
          by (simp_all add: generate_texts_def call_text_def perform_def e1_def c1_def e2_def
              c2_def e3_def c3_def)
        then show ?thesis
          using None p b
          by (intro exI [of _ "[e1, e2, e3]"])
            (auto simp: e1_def c1_def e2_def c2_def e3_def c3_def uploads_def)
      next
        case i: (Some introContent)
        define c where "c = \<lparr>Intro = introContent, Podcast = podcastContent, Blog = blogContent,
                   AudioURL = [], AudioFiles = []\<rparr>"
        show ?thesis
        proof (cases "json_Marshal s c")
          case None
          then have "res = None" "t' = t @ [e1, e2, e3]"
            using assms p b i
            by (simp_all add: generate_texts_def call_text_def perform_def e1_def c1_def e2_def
                c2_def e3_def c3_def c_def)
          then show ?thesis
            using p b i
            by (intro exI [of _ "[e1, e2, e3]"])
              (auto simp: e1_def c1_def e2_def c2_def e3_def c3_def uploads_def)
        next
          case m: (Some contentData)
          define c4 where "c4 = MinioUploadFile key contentData ''application/json''"
          define e4 where "e4 = (c4, respond s (t @ [e1, e2, e3]) c4)"
          have t': "t' = t @ [e1, e2, e3, e4]"
            and res: "res = (if text_of (respond s (t @ [e1, e2, e3]) c4) = None then None else Some c)"
            using assms p b i m
            by (auto simp add: generate_texts_def call_text_def perform_def e1_def c1_def e2_def
                c2_def e3_def c3_def c_def e4_def c4_def split: option.splits)
          show ?thesis
            using p b i t' res
            by (intro exI [of _ "[e1, e2, e3, e4]"])
              (auto simp: e1_def c1_def e2_def c2_def e3_def c3_def e4_def c4_def uploads_def
                 c_def text_of_Some)
        qed
      qed
    qed
  qed
qed

lemma merge_upload_spec:
  "\<exists>new. snd (merge_upload s date c segs t) = t @ new
       \<and> (\<forall>e \<in> set new. audio_call (fst e))
       \<and> (\<forall>x r. (MergeAudio x, r) \<in> set new \<longrightarrow> x = segs \<and> segs \<noteq> [])
       \<and> (\<forall>e \<in> set new. \<forall>x y. fst e \<noteq> TtsSynthesizeSpeech x y)
       \<and> Intro (fst (merge_upload s date c segs t)) = Intro c
       \<and> Podcast (fst (merge_upload s date c segs t)) = Podcast c
       \<and> Blog (fst (merge_upload s date c segs t)) = Blog c
       \<and> AudioFiles (fst (merge_upload s date c segs t)) = AudioFiles c"
proof (cases "segs = []")
  case True
  then show ?thesis by (intro exI [of _ "[]"]) (simp add: merge_upload_def)
next
  case False
  define c1 where "c1 = MergeAudio segs"
  define e1 where "e1 = (c1, respond s t c1)"
  show ?thesis
  proof (cases "text_of (respond s t c1)")
    case None
    with False show ?thesis
      by (intro exI [of _ "[e1]"])
        (simp add: merge_upload_def call_text_def perform_def e1_def c1_def)
  next
    case (Some mergedAudio)
    define c2 where "c2 = MinioUploadFile (mergedAudioKey date) mergedAudio ''audio/mpeg''"
    define e2 where "e2 = (c2, respond s (t @ [e1]) c2)"
    from False Some show ?thesis
      by (intro exI [of _ "[e1, e2]"])
        (auto simp add: merge_upload_def call_text_def perform_def e1_def c1_def e2_def c2_def
           split: option.splits)
  qed
qed

lemma synthesize_spec:
  "\<exists>pre c'. synthesize s date key podcastContent introContent c t = final_write s key c' (t @ pre)
      \<and> Intro c' = Intro c \<and> Podcast c' = Podcast c \<and> Blog c' = Blog c
      \<and> AudioFiles c' = AudioFiles c
      \<and> (\<forall>e \<in> set pre. audio_call (fst e))
      \<and> (\<forall>x r. (MergeAudio x, r) \<in> set pre \<longrightarrow>
            x \<noteq> [] \<and> (\<exists>a b. pre = a @ (MergeAudio x, r) # b \<and> x = speeches a))"
proof -
  obtain new1 where n1:
    "synth_turns s (Split podcastContent (CHR 0x0A)) [] t = ([] @ speeches new1, t @ new1)"
    "\<forall>e \<in> set new1. \<exists>x y. fst e = TtsSynthesizeSpeech x y"
    using synth_turns_spec by blast
  define segs where "segs = speeches new1"
  define c' where "c' = fst (merge_upload s date c segs (t @ new1))"
  obtain new2 where n2:
    "snd (merge_upload s date c segs (t @ new1)) = (t @ new1) @ new2"
    "\<forall>e \<in> set new2. audio_call (fst e)"
    "\<forall>x r. (MergeAudio x, r) \<in> set new2 \<longrightarrow> x = segs \<and> segs \<noteq> []"
    "\<forall>e \<in> set new2. \<forall>x y. fst e \<noteq> TtsSynthesizeSpeech x y"
    "Intro c' = Intro c" "Podcast c' = Podcast c" "Blog c' = Blog c" "AudioFiles c' = AudioFiles c"
    unfolding c'_def using merge_upload_spec by blast
  define c3 where "c3 = TtsSynthesizeSpeech introContent male"
  define e3 where "e3 = (c3, respond s (t @ new1 @ new2) c3)"
  have mu: "merge_upload s date c segs (t @ new1) = (c', t @ new1 @ new2)"
    using n2(1) by (simp add: c'_def prod_eq_iff)
  have run: "synthesize s date key podcastContent introContent c t
               = final_write s key c' (t @ (new1 @ new2 @ [e3]))"
    using n1(1) mu
    by (simp add: synthesize_def segs_def call_text_def perform_def e3_def c3_def)
  have kinds: "\<forall>e \<in> set (new1 @ new2 @ [e3]). audio_call (fst e)"
    using n1(2) n2(2) by (auto simp: e3_def c3_def)
  have merge: "x \<noteq> [] \<and> (\<exists>a b. new1 @ new2 @ [e3] = a @ (MergeAudio x, r) # b \<and> x = speeches a)"
    if "(MergeAudio x, r) \<in> set (new1 @ new2 @ [e3])" for x r
  proof -
    from that n1(2) have in2: "(MergeAudio x, r) \<in> set new2"
      by (auto simp: e3_def c3_def)
    with n2(3) have x: "x = segs" "segs \<noteq> []" by blast+
    from in2 obtain a b where ab: "new2 = a @ (MergeAudio x, r) # b"
      by (meson split_list)
    have "\<forall>e \<in> set a. speech e = None"
    proof
      fix e assume "e \<in> set a"
      then have "e \<in> set new2" using ab by simp
      with n2(4) have "\<forall>x y. fst e \<noteq> TtsSynthesizeSpeech x y" by blast
      then show "speech e = None" by (cases e rule: speech.cases) simp_all
    qed
    then have "speeches a = []"
      by (induction a) (simp_all add: trace_reads_Cons)
    then have "speeches (new1 @ a) = segs"
      by (simp add: segs_def speeches_def List.map_filter_def)
    with x ab show ?thesis
      by (intro conjI exI [of _ "new1 @ a"] exI [of _ "b @ [e3]"]) simp_all
  qed
  show ?thesis
    using run n2(5-8) kinds merge by blast
qed

lemma synthesize_events:
  "\<exists>new. synthesize s date key podcastContent introContent c t = t @ new
      \<and> (\<forall>e \<in> set new. audio_call (fst e))"
proof -
  obtain pre c' where
    "synthesize s date key podcastContent introContent c t = final_write s key c' (t @ pre)"
    "\<forall>e \<in> set pre. audio_call (fst e)"
    using synthesize_spec by blast
  then show ?thesis
    by (cases "json_Marshal s c'") (auto simp: final_write_spec)
qed

lemma stories_of_Some: "stories_of r = Some x \<longleftrightarrow> r = Stories x"
  by (cases r) (simp_all add: stories_of_def)

lemma uploads_none: "\<forall>e \<in> set tr. \<not> is_upload (fst e) \<Longrightarrow> uploads tr = []"
  by (induction tr) (simp_all add: uploads_def)

lemma generate_spec:
  assumes "generate s date maxItems key t = (res, t')"
  shows "\<exists>new. t' = t @ new
     \<and> (\<forall>c r. (c, r) \<in> set new \<and> text_stage c \<and> text_of r = None
            \<longrightarrow> last new = (c, r) \<and> uploads new = [] \<and> res = None)
     \<and> (\<forall>e \<in> set new. \<forall>x. fst e \<noteq> MergeAudio x)
     \<and> (\<forall>c. res = Some c \<longrightarrow>
            AudioURL c = [] \<and> AudioFiles c = []
          \<and> (\<exists>sts. (AiGeneratePodcastContent sts, Bytes (Podcast c)) \<in> set new
                  \<and> (AiGenerateBlogContent sts, Bytes (Blog c)) \<in> set new
                  \<and> (AiGenerateIntroContent (Podcast c), Bytes (Intro c)) \<in> set new))"
proof -
  define c1 where "c1 = HnGetTopStories date maxItems"
  define e1 where "e1 = (c1, respond s t c1)"
  show ?thesis
  proof (cases "stories_of (respond s t c1)")
    case None
    then have "res = None" "t' = t @ [e1]"
      using assms by (simp_all add: generate_def call_stories_def perform_def e1_def c1_def)
    then show ?thesis
      by (intro exI [of _ "[e1]"]) (simp add: e1_def c1_def)
  next
    case (Some stories)
    obtain lp where lp:
      "summarize s stories [] (t @ [e1]) = ([] @ summaries_of lp, (t @ [e1]) @ lp)"
      "\<forall>e \<in> set lp. loop_call (fst e)"
      using summarize_spec by blast
    have lp_kinds: "\<not> text_stage (fst e) \<and> \<not> is_upload (fst e) \<and> (\<forall>x. fst e \<noteq> MergeAudio x)"
      if "e \<in> set lp" for e
      using that lp(2) loop_call_kinds by blast
    show ?thesis
    proof (cases "summaries_of lp = []")
      case True
      then have "res = None" "t' = t @ e1 # lp"
        using assms Some lp(1)
        by (simp_all add: generate_def call_stories_def perform_def e1_def c1_def)
      then show ?thesis
        using lp_kinds by (intro exI [of _ "e1 # lp"]) (auto simp: e1_def c1_def)
    next
      case False
      then have gt: "generate_texts s key (summaries_of lp) (t @ e1 # lp) = (res, t')"
        using assms Some lp(1)
        by (simp add: generate_def call_stories_def perform_def e1_def c1_def)
      from generate_texts_spec [OF gt] obtain g where g:
        "t' = (t @ e1 # lp) @ g" "g \<noteq> []"
        "\<forall>e \<in> set g. text_stage (fst e) \<or> is_upload (fst e)"
        "\<forall>c r. (c, r) \<in> set g \<and> text_stage c \<and> text_of r = None
            \<longrightarrow> last g = (c, r) \<and> uploads g = [] \<and> res = None"
        "\<forall>c. res = Some c \<longrightarrow>
            AudioURL c = [] \<and> AudioFiles c = []
          \<and> (AiGeneratePodcastContent (summaries_of lp), Bytes (Podcast c)) \<in> set g
          \<and> (AiGenerateBlogContent (summaries_of lp), Bytes (Blog c)) \<in> set g
          \<and> (AiGenerateIntroContent (Podcast c), Bytes (Intro c)) \<in> set g"
        by blast
      have up: "uploads (e1 # lp) = []"
        using lp_kinds by (intro uploads_none) (auto simp: e1_def c1_def)
      have A: "last (e1 # lp @ g) = (c, r) \<and> uploads (e1 # lp @ g) = [] \<and> res = None"
        if "(c, r) \<in> set (e1 # lp @ g)" "text_stage c" "text_of r = None" for c r
      proof -
        from that lp_kinds have "(c, r) \<in> set g"
          by (auto simp: e1_def c1_def)
        with g(4) that have "last g = (c, r)" "uploads g = []" "res = None" by blast+
        moreover have "uploads (e1 # lp @ g) = uploads (e1 # lp) @ uploads g"
          using uploads_append [of "e1 # lp" g] by simp
        ultimately show ?thesis using g(2) up by simp
      qed
      have B: "\<forall>e \<in> set (e1 # lp @ g). \<forall>x. fst e \<noteq> MergeAudio x"
      proof
        fix e assume "e \<in> set (e1 # lp @ g)"
        then consider "e = e1" | "e \<in> set lp" | "e \<in> set g" by auto
        then show "\<forall>x. fst e \<noteq> MergeAudio x"
        proof cases
          case 1 then show ?thesis by (simp add: e1_def c1_def)
        next
          case 2 then show ?thesis using lp_kinds by blast
        next
          case 3
          with g(3) have "text_stage (fst e) \<or> is_upload (fst e)" by blast
          then show ?thesis by (cases "fst e") auto
        qed
      qed
      have C: "\<forall>c. res = Some c \<longrightarrow>
            AudioURL c = [] \<and> AudioFiles c = []
          \<and> (\<exists>sts. (AiGeneratePodcastContent sts, Bytes (Podcast c)) \<in> set (e1 # lp @ g)
                  \<and> (AiGenerateBlogContent sts, Bytes (Blog c)) \<in> set (e1 # lp @ g)
                  \<and> (AiGenerateIntroContent (Podcast c), Bytes (Intro c)) \<in> set (e1 # lp @ g))"
        using g(5) by auto
      have t': "t' = t @ e1 # lp @ g" using g(1) by simp
      show ?thesis
        using t' A B C by (intro exI [of _ "e1 # lp @ g"]) blast
    qed
  qed
qed

lemma load_spec:
  assumes "load s key forceAudio t = (res, t')"
  shows "\<exists>r. t' = t @ [(MinioDownloadFile key, r)]
     \<and> (\<forall>c. res = Some c \<longrightarrow> (\<exists>d. r = Bytes d \<and> json_Unmarshal s d = Some c))"
  using assms
  by (auto simp: load_def call_text_def perform_def text_of_Some 
      split: option.splits if_splits)

text \<open>What the run has done when it enters the audio stage with the artifact \<open>c\<close>: it has
  loaded \<open>c\<close> from the store, or it has generated the three texts of \<open>c\<close>.\<close>

lemma decide_generate_spec:
  assumes "decide_generate s date maxItems force forceAudio t = (res, t')"
  shows "\<exists>new. t' = t @ new
     \<and> (\<forall>c r. (c, r) \<in> set new \<and> text_stage c \<and> text_of r = None
            \<longrightarrow> last new = (c, r) \<and> uploads new = [] \<and> res = None)
     \<and> (\<forall>e \<in> set new. \<forall>x. fst e \<noteq> MergeAudio x)
     \<and> (\<forall>c. res = Some c \<longrightarrow>
            (\<exists>d. (MinioDownloadFile (contentKey s date), Bytes d) \<in> set new
                \<and> json_Unmarshal s d = Some c)
          \<or> (\<exists>sts. (AiGeneratePodcastContent sts, Bytes (Podcast c)) \<in> set new
                  \<and> (AiGenerateBlogContent sts, Bytes (Blog c)) \<in> set new
                  \<and> (AiGenerateIntroContent (Podcast c), Bytes (Intro c)) \<in> set new))"
proof -
  define c0 where "c0 = MinioObjectExists (contentKey s date)"
  define e0 where "e0 = (c0, respond s t c0)"
  show ?thesis
  proof (cases "\<not> flag_of (respond s t c0) \<or> force")
    case True
    then have "generate s date maxItems (contentKey s date) (t @ [e0]) = (res, t')"
      using assms
      by (auto simp add: decide_generate_def call_flag_def perform_def e0_def c0_def)
    from generate_spec [OF this] obtain g where g:
      "t' = (t @ [e0]) @ g"
      "\<forall>c r. (c, r) \<in> set g \<and> text_stage c \<and> text_of r = None
            \<longrightarrow> last g = (c, r) \<and> uploads g = [] \<and> res = None"
      "\<forall>e \<in> set g. \<forall>x. fst e \<noteq> MergeAudio x"
      "\<forall>c. res = Some c \<longrightarrow>
            AudioURL c = [] \<and> AudioFiles c = []
          \<and> (\<exists>sts. (AiGeneratePodcastContent sts, Bytes (Podcast c)) \<in> set g
                  \<and> (AiGenerateBlogContent sts, Bytes (Blog c)) \<in> set g
                  \<and> (AiGenerateIntroContent (Podcast c), Bytes (Intro c)) \<in> set g)"
      by blast
    have A: "last (e0 # g) = (c, r) \<and> uploads (e0 # g) = [] \<and> res = None"
      if "(c, r) \<in> set (e0 # g)" "text_stage c" "text_of r = None" for c r
    proof -
      from that have in_g: "(c, r) \<in> set g" by (auto simp: e0_def c0_def)
      with g(2) that have "last g = (c, r)" "uploads g = []" "res = None" by blast+
      moreover from in_g have "g \<noteq> []" by auto
      ultimately show ?thesis by (simp add: uploads_Cons e0_def c0_def)
    qed
    have C: "\<forall>c. res = Some c \<longrightarrow>
            (\<exists>d. (MinioDownloadFile (contentKey s date), Bytes d) \<in> set (e0 # g)
                \<and> json_Unmarshal s d = Some c)
          \<or> (\<exists>sts. (AiGeneratePodcastContent sts, Bytes (Podcast c)) \<in> set (e0 # g)
                  \<and> (AiGenerateBlogContent sts, Bytes (Blog c)) \<in> set (e0 # g)
                  \<and> (AiGenerateIntroContent (Podcast c), Bytes (Intro c)) \<in> set (e0 # g))"
      using g(4) by (metis list.set_intros(2))
    have t': "t' = t @ e0 # g" using g(1) by simp
    have B: "\<forall>e \<in> set (e0 # g). \<forall>x. fst e \<noteq> MergeAudio x"
      using g(3) by (simp add: e0_def c0_def)
    show ?thesis
      using t' A B C by (intro exI [of _ "e0 # g"]) blast
  next
    case False
    then have "load s (contentKey s date) forceAudio (t @ [e0]) = (res, t')"
      using assms
      by (auto simp add: decide_generate_def call_flag_def perform_def e0_def c0_def)
    from load_spec [OF this] obtain r where r:
      "t' = (t @ [e0]) @ [(MinioDownloadFile (contentKey s date), r)]"
      "\<forall>c. res = Some c \<longrightarrow> (\<exists>d. r = Bytes d \<and> json_Unmarshal s d = Some c)"
      by blast
    then show ?thesis
      by (intro exI [of _ "[e0, (MinioDownloadFile (contentKey s date), r)]"])
        (auto simp: e0_def c0_def)
  qed
qed

subsection \<open>A date whose artifact is complete\<close>

text \<open>
  C1. When the existence check answers that the content of the date exists, the download
  succeeds and the stored artifact has a non-empty \<open>audioUrl\<close>, a run with \<open>force = false\<close> and
  \<open>forceAudio = false\<close> consists of these two read-only queries of the Decide step and nothing
  else: no item is fetched, no text generated, no speech synthesized and nothing written.
\<close>

theorem C1_complete_artifact_is_left_alone:
  assumes "respond s t (MinioObjectExists (contentKey s date)) = Flag True"
    and "respond s (t @ [(MinioObjectExists (contentKey s date), Flag True)])
           (MinioDownloadFile (contentKey s date)) = Bytes contentData"
    and "json_Unmarshal s contentData = Some c"
    and "AudioURL c \<noteq> []"
  shows "processHackerNews s date maxItems False False t =
           t @ [(MinioObjectExists (contentKey s date), Flag True),
                (MinioDownloadFile (contentKey s date), Bytes contentData)]"
  using assms
  by (simp add: processHackerNews_def decide_generate_def load_def call_flag_def call_text_def
      perform_def flag_of_def text_of_def)

theorem C1_witness:
  "processHackerNews archive_server ''2024-05-01'' 10 False False [] =
     [(MinioObjectExists ''content:production:hacker-news:2024-05-01'', Flag True),
      (MinioDownloadFile ''content:production:hacker-news:2024-05-01'', Bytes ''{}'')]"
  using C1_complete_artifact_is_left_alone [of archive_server "[]" "''2024-05-01''" "''{}''" a_content 10]
  by (simp add: archive_server_def contentKey_def a_content_def)

subsection \<open>Two example runs\<close>

lemmas run_eval = processHackerNews_def decide_generate_def generate_def load_def
  generate_texts_def synthesize_def merge_upload_def final_write_def
  call_flag_def call_text_def call_stories_def perform_def flag_of_def text_of_def stories_of_def
  contentKey_def mergedAudioKey_def Second_def

text \<open>Five stories, of which the second cannot be fetched and the fourth cannot be
  summarized; the podcast script cannot be generated.\<close>

lemma partial_server_run:
  "processHackerNews partial_server ''2024-05-01'' 5 False False [] =
    [(MinioObjectExists ''content:production:hacker-news:2024-05-01'', Flag False),
     (HnGetTopStories ''2024-05-01'' 5,
        Stories [a_story ''1'', a_story ''2'', a_story ''3'', a_story ''4'', a_story ''5'']),
     (HnGetStoryContent (a_story ''1'') 4096, Bytes ''c1''),
     (AiGenerateStoryText ''c1'', Bytes ''s1''),
     (TimeSleep 2000000000, Done),
     (HnGetStoryContent (a_story ''2'') 4096, Failed),
     (HnGetStoryContent (a_story ''3'') 4096, Bytes ''c3''),
     (AiGenerateStoryText ''c3'', Bytes ''s3''),
     (TimeSleep 2000000000, Done),
     (HnGetStoryContent (a_story ''4'') 4096, Bytes ''c4''),
     (AiGenerateStoryText ''c4'', Failed),
     (HnGetStoryContent (a_story ''5'') 4096, Bytes ''c5''),
     (AiGenerateStoryText ''c5'', Bytes ''s5''),
     (TimeSleep 2000000000, Done),
     (AiGeneratePodcastContent [''s1'', ''s3'', ''s5''], Failed)]"
  by (simp add: run_eval partial_server_def a_story_def)

text \<open>A stored artifact without audio, and no speech call succeeds.\<close>

lemma mute_server_run:
  "processHackerNews mute_server ''2024-05-01'' 5 False False [] =
    [(MinioObjectExists ''content:production:hacker-news:2024-05-01'', Flag True),
     (MinioDownloadFile ''content:production:hacker-news:2024-05-01'', Bytes ''{}''),
     (TtsSynthesizeSpeech ''hi'' male, Failed),
     (TtsSynthesizeSpeech ''intro'' male, Failed),
     (MinioUploadFile ''content:production:hacker-news:2024-05-01'' (''intro|'' @ male @ '': hi|blog|'')
        ''application/json'',
      Bytes ''/hacker-news/content:production:hacker-news:2024-05-01'')]"
  by (simp add: run_eval mute_server_def a_content_def utf8_eval turn_eval)

subsection \<open>The summaries\<close>

text \<open>
  C4. In a run that generates (the content is absent, or \<open>force\<close> is set) and has received
  the list of stories, the loop asks for the content of every story exactly once, in the
  order of the list, whatever fails; it asks for a summary exactly of the contents that
  were fetched, once each and in that order; and it makes no other calls than these and the
  pauses, so it writes nothing. The summaries that were generated, in that order, are what
  the run goes on with: when there is none the run ends there, and otherwise its next call is
  the generation of the podcast script from exactly these summaries.
\<close>

theorem C4_summaries_in_fetch_order:
  assumes "\<not> flag_of (respond s t (MinioObjectExists (contentKey s date))) \<or> force"
    and "respond s
           (t @ [(MinioObjectExists (contentKey s date),
                  respond s t (MinioObjectExists (contentKey s date)))])
           (HnGetTopStories date maxItems) = Stories stories"
  shows "\<exists>loop rest.
      processHackerNews s date maxItems force forceAudio t =
        t @ [(MinioObjectExists (contentKey s date),
              respond s t (MinioObjectExists (contentKey s date))),
             (HnGetTopStories date maxItems, Stories stories)] @ loop @ rest
    \<and> fetch_calls loop = stories
    \<and> summary_calls loop = fetched_texts loop
    \<and> (\<forall>e \<in> set loop. loop_call (fst e))
    \<and> (summaries_of loop = [] \<longrightarrow> rest = [])
    \<and> (summaries_of loop \<noteq> [] \<longrightarrow>
          rest \<noteq> [] \<and> fst (hd rest) = AiGeneratePodcastContent (summaries_of loop))"
proof -
  define e0 where "e0 = (MinioObjectExists (contentKey s date),
                         respond s t (MinioObjectExists (contentKey s date)))"
  define eS where "eS = (HnGetTopStories date maxItems, Stories stories)"
  define t2 where "t2 = t @ [e0, eS]"
  obtain lp where lp:
    "summarize s stories [] t2 = ([] @ summaries_of lp, t2 @ lp)"
    "fetch_calls lp = stories" "summary_calls lp = fetched_texts lp"
    "\<forall>e \<in> set lp. loop_call (fst e)"
    using summarize_spec by blast
  have dg: "decide_generate s date maxItems force forceAudio t =
      (if summaries_of lp = [] then (None, t2 @ lp)
       else generate_texts s (contentKey s date) (summaries_of lp) (t2 @ lp))"
    using assms lp(1)
    by (auto simp add: decide_generate_def generate_def call_flag_def call_stories_def
        perform_def stories_of_def e0_def eS_def t2_def)
  show ?thesis
  proof (cases "summaries_of lp = []")
    case True
    then have "processHackerNews s date maxItems force forceAudio t = t @ [e0, eS] @ lp @ []"
      using dg by (simp add: processHackerNews_def t2_def)
    with True lp(2-4) show ?thesis
      unfolding e0_def eS_def by blast
  next
    case False
    obtain res t' where gt:
      "generate_texts s (contentKey s date) (summaries_of lp) (t2 @ lp) = (res, t')"
      by (cases "generate_texts s (contentKey s date) (summaries_of lp) (t2 @ lp)") blast
    from generate_texts_spec [OF gt] obtain g where g:
      "t' = (t2 @ lp) @ g" "g \<noteq> []"
      "fst (hd g) = AiGeneratePodcastContent (summaries_of lp)"
      by blast
    have "\<exists>a. processHackerNews s date maxItems force forceAudio t = t' @ a"
    proof (cases res)
      case None
      then show ?thesis using dg False gt by (simp add: processHackerNews_def)
    next
      case (Some c)
      then show ?thesis
        using dg False gt synthesize_events [of s date "contentKey s date" "Podcast c" "Intro c" c t']
        by (auto simp add: processHackerNews_def)
    qed
    then obtain a where "processHackerNews s date maxItems force forceAudio t = t' @ a" ..
    then have run: "processHackerNews s date maxItems force forceAudio t
                      = t @ [e0, eS] @ lp @ (g @ a)"
      using g(1) by (simp add: t2_def)
    have "g @ a \<noteq> []" "fst (hd (g @ a)) = AiGeneratePodcastContent (summaries_of lp)"
      using g(2,3) by simp_all
    with run False lp(2-4) show ?thesis
      unfolding e0_def eS_def by blast
  qed
qed

theorem C4_witness:
  "processHackerNews partial_server ''2024-05-01'' 5 False False [] =
     [(MinioObjectExists ''content:production:hacker-news:2024-05-01'', Flag False),
      (HnGetTopStories ''2024-05-01'' 5,
        Stories [a_story ''1'', a_story ''2'', a_story ''3'', a_story ''4'', a_story ''5''])]
     @ [(HnGetStoryContent (a_story ''1'') 4096, Bytes ''c1''),
        (AiGenerateStoryText ''c1'', Bytes ''s1''),
        (TimeSleep 2000000000, Done),
        (HnGetStoryContent (a_story ''2'') 4096, Failed),
        (HnGetStoryContent (a_story ''3'') 4096, Bytes ''c3''),
        (AiGenerateStoryText ''c3'', Bytes ''s3''),
        (TimeSleep 2000000000, Done),
        (HnGetStoryContent (a_story ''4'') 4096, Bytes ''c4''),
        (AiGenerateStoryText ''c4'', Failed),
        (HnGetStoryContent (a_story ''5'') 4096, Bytes ''c5''),
        (AiGenerateStoryText ''c5'', Bytes ''s5''),
        (TimeSleep 2000000000, Done)]
     @ [(AiGeneratePodcastContent [''s1'', ''s3'', ''s5''], Failed)]
   \<and> (\<exists>loop rest.
        processHackerNews partial_server ''2024-05-01'' 5 False False [] =
          [(MinioObjectExists ''content:production:hacker-news:2024-05-01'', Flag False),
           (HnGetTopStories ''2024-05-01'' 5,
             Stories [a_story ''1'', a_story ''2'', a_story ''3'', a_story ''4'', a_story ''5''])]
          @ loop @ rest
      \<and> fetch_calls loop = [a_story ''1'', a_story ''2'', a_story ''3'', a_story ''4'', a_story ''5'']
      \<and> summary_calls loop = fetched_texts loop
      \<and> (\<forall>e \<in> set loop. loop_call (fst e))
      \<and> (summaries_of loop = [] \<longrightarrow> rest = [])
      \<and> (summaries_of loop \<noteq> [] \<longrightarrow>
            rest \<noteq> [] \<and> fst (hd rest) = AiGeneratePodcastContent (summaries_of loop)))"
proof -
  have h1: "\<not> flag_of (respond partial_server []
                (MinioObjectExists (contentKey partial_server ''2024-05-01''))) \<or> False"
    by (simp add: partial_server_def flag_of_def)
  have h2: "respond partial_server
           ([] @ [(MinioObjectExists (contentKey partial_server ''2024-05-01''),
                  respond partial_server [] (MinioObjectExists (contentKey partial_server ''2024-05-01'')))])
           (HnGetTopStories ''2024-05-01'' 5)
        = Stories [a_story ''1'', a_story ''2'', a_story ''3'', a_story ''4'', a_story ''5'']"
    by (simp add: partial_server_def)
  have k: "contentKey partial_server ''2024-05-01'' = ''content:production:hacker-news:2024-05-01''"
    "respond partial_server [] (MinioObjectExists ''content:production:hacker-news:2024-05-01'')
       = Flag False"
    by (simp_all add: partial_server_def contentKey_def)
  show ?thesis
    using C4_summaries_in_fetch_order [OF h1 h2, of False] partial_server_run
    by (simp add: k)
qed

subsection \<open>Failure of a text generation\<close>

text \<open>
  C6. In every run, when the generation of the podcast script, of the blog text or of the
  intro fails, that call is the last thing the run does, and the run has issued no write to
  the store at all.
\<close>

theorem C6_failed_text_generation_ends_the_run:
  "\<exists>new. processHackerNews s date maxItems force forceAudio t = t @ new
     \<and> (\<forall>c r. (c, r) \<in> set new \<and> text_stage c \<and> text_of r = None
            \<longrightarrow> last new = (c, r) \<and> uploads new = [])"
proof -
  obtain res t1 where dg: "decide_generate s date maxItems force forceAudio t = (res, t1)"
    by (cases "decide_generate s date maxItems force forceAudio t") blast
  from decide_generate_spec [OF dg] obtain d where d:
    "t1 = t @ d"
    "\<forall>c r. (c, r) \<in> set d \<and> text_stage c \<and> text_of r = None
        \<longrightarrow> last d = (c, r) \<and> uploads d = [] \<and> res = None"
    by blast
  show ?thesis
  proof (cases res)
    case None
    then have "processHackerNews s date maxItems force forceAudio t = t @ d"
      using dg d(1) by (simp add: processHackerNews_def)
    with d(2) show ?thesis by blast
  next
    case (Some c)
    obtain a where a:
      "synthesize s date (contentKey s date) (Podcast c) (Intro c) c (t @ d) = (t @ d) @ a"
      "\<forall>e \<in> set a. audio_call (fst e)"
      using synthesize_events by blast
    have run: "processHackerNews s date maxItems force forceAudio t = t @ (d @ a)"
      using dg d(1) Some a(1) by (simp add: processHackerNews_def)
    have "\<not> ((c', r) \<in> set (d @ a) \<and> text_stage c' \<and> text_of r = None)" for c' r
    proof
      assume h: "(c', r) \<in> set (d @ a) \<and> text_stage c' \<and> text_of r = None"
      then have "(c', r) \<in> set d \<or> (c', r) \<in> set a" by simp
      then show False
      proof
        assume "(c', r) \<in> set d"
        with d(2) h have "res = None" by blast
        with Some show False by simp
      next
        assume "(c', r) \<in> set a"
        with a(2) have "audio_call c'" by force
        with h show False using audio_call_kinds by blast
      qed
    qed
    with run show ?thesis by blast
  qed
qed

theorem C6_witness:
  "\<exists>new. processHackerNews partial_server ''2024-05-01'' 5 False False [] = new
      \<and> (AiGeneratePodcastContent [''s1'', ''s3'', ''s5''], Failed) \<in> set new
      \<and> last new = (AiGeneratePodcastContent [''s1'', ''s3'', ''s5''], Failed)
      \<and> uploads new = []"
proof -
  from C6_failed_text_generation_ends_the_run
    [of partial_server "''2024-05-01''" 5 False False "[]"]
  obtain new where new:
    "processHackerNews partial_server ''2024-05-01'' 5 False False [] = [] @ new"
    "\<forall>c r. (c, r) \<in> set new \<and> text_stage c \<and> text_of r = None
            \<longrightarrow> last new = (c, r) \<and> uploads new = []"
    by blast
  have eq: "new = processHackerNews partial_server ''2024-05-01'' 5 False False []"
    using new(1) by simp
  have mem: "(AiGeneratePodcastContent [''s1'', ''s3'', ''s5''], Failed) \<in> set new"
    unfolding eq partial_server_run by simp
  moreover have "text_stage (AiGeneratePodcastContent [''s1'', ''s3'', ''s5''])"
    "text_of Failed = None"
    by (simp_all add: text_of_def)
  ultimately have "last new = (AiGeneratePodcastContent [''s1'', ''s3'', ''s5''], Failed)
      \<and> uploads new = []"
    using new(2) by blast
  with mem eq show ?thesis by simp
qed

subsection \<open>The write at the end of the audio stage\<close>

text \<open>
  C7. When a run enters the audio stage with the artifact \<open>c\<close> (loaded from the store, or made
  of the three texts it has generated), it ends by serializing an artifact \<open>c'\<close> and
  uploading it under the content key of the date, whatever the speech service, the merge and
  the audio upload have answered; the upload is the last call of the run. The fields
  \<open>Intro\<close>, \<open>Podcast\<close>, \<open>Blog\<close> and \<open>AudioFiles\<close> of \<open>c'\<close> are those of \<open>c\<close>. (\<open>json.Marshal\<close>
  does not fail on this struct; the source has the branch, and so has the model.)
\<close>

theorem C7_artifact_is_written_back:
  assumes "decide_generate s date maxItems force forceAudio t = (Some c, t1)"
  shows "\<exists>c' pre.
      Intro c' = Intro c \<and> Podcast c' = Podcast c \<and> Blog c' = Blog c
    \<and> AudioFiles c' = AudioFiles c
    \<and> (\<forall>contentData. json_Marshal s c' = Some contentData \<longrightarrow>
          processHackerNews s date maxItems force forceAudio t =
            pre @ [(MinioUploadFile (contentKey s date) contentData ''application/json'',
                    respond s pre
                      (MinioUploadFile (contentKey s date) contentData ''application/json''))])
    \<and> (\<forall>e \<in> set (drop (length t1) pre). audio_call (fst e))
    \<and> ((\<exists>d. (MinioDownloadFile (contentKey s date), Bytes d) \<in> set t1
             \<and> json_Unmarshal s d = Some c)
        \<or> (\<exists>sts. (AiGeneratePodcastContent sts, Bytes (Podcast c)) \<in> set t1
                \<and> (AiGenerateBlogContent sts, Bytes (Blog c)) \<in> set t1
                \<and> (AiGenerateIntroContent (Podcast c), Bytes (Intro c)) \<in> set t1))"
proof -
  from decide_generate_spec [OF assms] obtain d where d:
    "t1 = t @ d"
    "(\<exists>x. (MinioDownloadFile (contentKey s date), Bytes x) \<in> set d
           \<and> json_Unmarshal s x = Some c)
     \<or> (\<exists>sts. (AiGeneratePodcastContent sts, Bytes (Podcast c)) \<in> set d
             \<and> (AiGenerateBlogContent sts, Bytes (Blog c)) \<in> set d
             \<and> (AiGenerateIntroContent (Podcast c), Bytes (Intro c)) \<in> set d)"
    by blast
  obtain a c' where a:
    "synthesize s date (contentKey s date) (Podcast c) (Intro c) c t1
       = final_write s (contentKey s date) c' (t1 @ a)"
    "Intro c' = Intro c" "Podcast c' = Podcast c" "Blog c' = Blog c"
    "AudioFiles c' = AudioFiles c"
    "\<forall>e \<in> set a. audio_call (fst e)"
    using synthesize_spec by blast
  have run: "processHackerNews s date maxItems force forceAudio t
               = final_write s (contentKey s date) c' (t1 @ a)"
    using assms a(1) by (simp add: processHackerNews_def)
  have origin: "(\<exists>d. (MinioDownloadFile (contentKey s date), Bytes d) \<in> set t1
             \<and> json_Unmarshal s d = Some c)
        \<or> (\<exists>sts. (AiGeneratePodcastContent sts, Bytes (Podcast c)) \<in> set t1
                \<and> (AiGenerateBlogContent sts, Bytes (Blog c)) \<in> set t1
                \<and> (AiGenerateIntroContent (Podcast c), Bytes (Intro c)) \<in> set t1)"
    using d by auto
  show ?thesis
    using a(2-6) origin
    by (intro exI [of _ c'] exI [of _ "t1 @ a"]) (simp add: run final_write_spec)
qed

theorem C7_witness:
  "processHackerNews mute_server ''2024-05-01'' 5 False False [] =
    [(MinioObjectExists ''content:production:hacker-news:2024-05-01'', Flag True),
     (MinioDownloadFile ''content:production:hacker-news:2024-05-01'', Bytes ''{}''),
     (TtsSynthesizeSpeech ''hi'' male, Failed),
     (TtsSynthesizeSpeech ''intro'' male, Failed),
     (MinioUploadFile ''content:production:hacker-news:2024-05-01''
        (''intro|'' @ male @ '': hi|blog|'') ''application/json'',
      Bytes ''/hacker-news/content:production:hacker-news:2024-05-01'')]
   \<and> (\<exists>(c'::content) pre. Intro c' = ''intro'' \<and> Podcast c' = male @ '': hi'' \<and> Blog c' = ''blog''
        \<and> AudioFiles c' = []
        \<and> processHackerNews mute_server ''2024-05-01'' 5 False False [] =
            pre @ [(MinioUploadFile ''content:production:hacker-news:2024-05-01''
                      (''intro|'' @ male @ '': hi|blog|'' @ AudioURL c') ''application/json'',
                    Bytes ''/hacker-news/content:production:hacker-news:2024-05-01'')])"
proof -
  have h: "decide_generate mute_server ''2024-05-01'' 5 False False [] =
      (Some (a_content\<lparr>AudioURL := []\<rparr>),
       [(MinioObjectExists ''content:production:hacker-news:2024-05-01'', Flag True),
        (MinioDownloadFile ''content:production:hacker-news:2024-05-01'', Bytes ''{}'')])"
    by (simp add: run_eval mute_server_def a_content_def)
  from C7_artifact_is_written_back [OF h] obtain c' pre where c':
    "Intro c' = Intro (a_content\<lparr>AudioURL := []\<rparr>)"
    "Podcast c' = Podcast (a_content\<lparr>AudioURL := []\<rparr>)"
    "Blog c' = Blog (a_content\<lparr>AudioURL := []\<rparr>)"
    "AudioFiles c' = AudioFiles (a_content\<lparr>AudioURL := []\<rparr>)"
    "\<forall>contentData. json_Marshal mute_server c' = Some contentData \<longrightarrow>
          processHackerNews mute_server ''2024-05-01'' 5 False False [] =
            pre @ [(MinioUploadFile (contentKey mute_server ''2024-05-01'') contentData
                      ''application/json'',
                    respond mute_server pre
                      (MinioUploadFile (contentKey mute_server ''2024-05-01'') contentData
                         ''application/json''))]"
    by blast
  define D where "D = Intro c' @ ''|'' @ Podcast c' @ ''|'' @ Blog c' @ ''|'' @ AudioURL c'"
  have m: "json_Marshal mute_server c' = Some D"
    by (simp add: mute_server_def D_def)
  have D: "D = ''intro|'' @ male @ '': hi|blog|'' @ AudioURL c'"
    using c'(1-3) by (simp add: D_def a_content_def)
  have mk: "contentKey mute_server ''2024-05-01'' = ''content:production:hacker-news:2024-05-01''"
    by (simp add: mute_server_def contentKey_def)
  have mr: "respond mute_server tr (MinioUploadFile k d ct) = Bytes (''/hacker-news/'' @ k)"
    for tr k d ct
    by (simp add: mute_server_def)
  from c'(5) m have
    "processHackerNews mute_server ''2024-05-01'' 5 False False [] =
       pre @ [(MinioUploadFile (contentKey mute_server ''2024-05-01'') D ''application/json'',
               respond mute_server pre
                 (MinioUploadFile (contentKey mute_server ''2024-05-01'') D ''application/json''))]"
    by blast
  then have
    "processHackerNews mute_server ''2024-05-01'' 5 False False [] =
       pre @ [(MinioUploadFile ''content:production:hacker-news:2024-05-01''
                      (''intro|'' @ male @ '': hi|blog|'' @ AudioURL c') ''application/json'',
               Bytes ''/hacker-news/content:production:hacker-news:2024-05-01'')]"
    unfolding mk mr D by simp
  moreover have "Intro c' = ''intro''" "Podcast c' = male @ '': hi''" "Blog c' = ''blog''"
    "AudioFiles c' = []"
    using c'(1-4) by (simp_all add: a_content_def)
  ultimately have conj:
    "Intro c' = ''intro'' \<and> Podcast c' = male @ '': hi'' \<and> Blog c' = ''blog''
        \<and> AudioFiles c' = []
        \<and> processHackerNews mute_server ''2024-05-01'' 5 False False [] =
            pre @ [(MinioUploadFile ''content:production:hacker-news:2024-05-01''
                      (''intro|'' @ male @ '': hi|blog|'' @ AudioURL c') ''application/json'',
                    Bytes ''/hacker-news/content:production:hacker-news:2024-05-01'')]"
    by (intro conjI)
  have "\<exists>(c'::content) pre. Intro c' = ''intro'' \<and> Podcast c' = male @ '': hi'' \<and> Blog c' = ''blog''
        \<and> AudioFiles c' = []
        \<and> processHackerNews mute_server ''2024-05-01'' 5 False False [] =
            pre @ [(MinioUploadFile ''content:production:hacker-news:2024-05-01''
                      (''intro|'' @ male @ '': hi|blog|'' @ AudioURL c') ''application/json'',
                    Bytes ''/hacker-news/content:production:hacker-news:2024-05-01'')]"
    by (rule exI [of _ c'], rule exI [of _ pre]) (rule conj)
  with mute_server_run show ?thesis by (intro conjI)
qed

subsection \<open>The retries of the text generator\<close>

lemma retry_trace_Cons:
  "rs \<noteq> [] \<Longrightarrow> retry_trace req i (r # rs) =
     CreateChatCompletion req (2 * Minute) r # Sleep (int (i + 1) * 2 * Second)
       # retry_trace req (i + 1) rs"
  by (cases rs) simp_all

lemma attempt_results_retry_trace: "attempt_results (retry_trace req i rs) = rs"
  by (induction req i rs rule: retry_trace.induct)
     (simp_all add: attempt_results_def List.map_filter_simps)

lemma generateText_loop_spec:
  assumes "i < maxRetries"
  shows "\<exists>rs. snd (generateText_loop api req i t) = t @ retry_trace req i rs
      \<and> 1 \<le> length rs \<and> i + length rs \<le> maxRetries
      \<and> list_all attempt_failed (butlast rs)
      \<and> (case last rs of
            ApiError \<Rightarrow> i + length rs = maxRetries
                          \<and> fst (generateText_loop api req i t) = Inl RequestFailed
          | ApiResponse choices \<Rightarrow>
              if length choices = 0
              then i + length rs = maxRetries
                     \<and> fst (generateText_loop api req i t) = Inl NoContent
              else fst (generateText_loop api req i t) = Inr (hd choices))"
  using assms
proof (induction "maxRetries - i" arbitrary: i t)
  case 0
  then show ?case by simp
next
  case (Suc n)
  define resp where "resp = api t req (2 * Minute)"
  define t1 where "t1 = t @ [CreateChatCompletion req (2 * Minute) resp]"
  show ?case
  proof (cases "attempt_failed resp \<and> i < maxRetries - 1")
    case False
    have "generateText_loop api req i t =
        ((case resp of
            ApiError \<Rightarrow> Inl RequestFailed
          | ApiResponse choices \<Rightarrow> if length choices = 0 then Inl NoContent else Inr (hd choices)),
         t1)"
      using Suc.prems False
      by (subst generateText_loop.simps)
        (cases resp; simp add: resp_def [symmetric] t1_def Let_def attempt_failed_def)
    moreover have "attempt_failed resp \<Longrightarrow> i + 1 = maxRetries"
      using False Suc.prems by auto
    ultimately show ?thesis
      using Suc.prems
      by (intro exI [of _ "[resp]"])
        (cases resp; auto simp add: t1_def attempt_failed_def)
  next
    case True
    define t2 where "t2 = t1 @ [Sleep (int (i + 1) * 2 * Second)]"
    have step: "generateText_loop api req i t = generateText_loop api req (i + 1) t2"
      using Suc.prems True
      by (subst generateText_loop.simps)
        (cases resp; simp add: resp_def [symmetric] t1_def t2_def Let_def attempt_failed_def)
    have n: "n = maxRetries - (i + 1)"
      using Suc.hyps(2) by arith
    have i: "i + 1 < maxRetries"
      using True by arith
    from Suc.hyps(1) [OF n i, of t2] obtain rs where rs:
      "snd (generateText_loop api req (i + 1) t2) = t2 @ retry_trace req (i + 1) rs"
      "1 \<le> length rs" "i + 1 + length rs \<le> maxRetries"
      "list_all attempt_failed (butlast rs)"
      "case last rs of
            ApiError \<Rightarrow> i + 1 + length rs = maxRetries
                          \<and> fst (generateText_loop api req (i + 1) t2) = Inl RequestFailed
          | ApiResponse choices \<Rightarrow>
              if length choices = 0
              then i + 1 + length rs = maxRetries
                     \<and> fst (generateText_loop api req (i + 1) t2) = Inl NoContent
              else fst (generateText_loop api req (i + 1) t2) = Inr (hd choices)"
      by blast
    from rs(2) have ne: "rs \<noteq> []" by auto
    have tr: "snd (generateText_loop api req i t) = t @ retry_trace req i (resp # rs)"
      using rs(1) ne by (simp add: step retry_trace_Cons t2_def t1_def)
    have fl: "list_all attempt_failed (butlast (resp # rs))"
      using True rs(4) ne by simp
    have res: "case last (resp # rs) of
            ApiError \<Rightarrow> i + length (resp # rs) = maxRetries
                          \<and> fst (generateText_loop api req i t) = Inl RequestFailed
          | ApiResponse choices \<Rightarrow>
              if length choices = 0
              then i + length (resp # rs) = maxRetries
                     \<and> fst (generateText_loop api req i t) = Inl NoContent
              else fst (generateText_loop api req i t) = Inr (hd choices)"
      using rs(5) ne by (auto simp add: step split: api_result.splits if_splits)
    have len: "1 \<le> length (resp # rs)" "i + length (resp # rs) \<le> maxRetries"
      using rs(3) by simp_all
    from tr len fl res show ?thesis by blast
  qed
qed

lemma generateText_discipline: "retry_discipline req t (generateText api req t)"
proof -
  have "0 < maxRetries" by (simp add: maxRetries_def)
  from generateText_loop_spec [OF this, of api req t] obtain rs where rs:
    "snd (generateText api req t) = t @ retry_trace req 0 rs"
    "1 \<le> length rs" "length rs \<le> maxRetries"
    "list_all attempt_failed (butlast rs)"
    "case last rs of
        ApiError \<Rightarrow> length rs = maxRetries \<and> fst (generateText api req t) = Inl RequestFailed
      | ApiResponse choices \<Rightarrow>
          if length choices = 0
          then length rs = maxRetries \<and> fst (generateText api req t) = Inl NoContent
          else fst (generateText api req t) = Inr (hd choices)"
    by (auto simp add: generateText_def cong: api_result.case_cong if_cong)
  show ?thesis
    unfolding retry_discipline_def Let_def rs(1)
    using rs(2-5)
    by (auto simp add: attempt_results_retry_trace split: api_result.splits if_splits)
qed

text \<open>
  A response whose only choice has an empty text is not retried: the call returns the empty
  text after one attempt.
\<close>

theorem C5_counterexample:
  "generateText empty_text_openai a_request [] =
     (Inr [], [CreateChatCompletion a_request 120000000000 (ApiResponse [[]])])"
  by (simp add: generateText_def generateText_loop.simps maxRetries_def empty_text_openai_def
      Minute_def Second_def Let_def)

text \<open>
  C5. Every call of the text generator keeps the discipline of \<open>generateText\<close>: one to three
  attempts with the request of the call, each under a context with its own timeout of two
  minutes; all attempts but the last have returned an error or a response without choices,
  and after the first and the second of them the call has paused for two and for four
  seconds (the number of the attempt times two seconds); when the last attempt has failed
  in this way too, it was the third, and the call returns the error; otherwise the call
  returns the text of the first choice, whatever the text is. This holds for
  \<open>generateText\<close> and for the entry points \<open>GeneratePodcastContent\<close>, \<open>GenerateBlogContent\<close> and
  \<open>GenerateIntroContent\<close> with their requests, and for \<open>GenerateStoryText\<close> with the request
  that holds the first \<open>maxTokens * 4\<close> bytes of the content; with a negative bound
  \<open>GenerateStoryText\<close> panics before any attempt.
\<close>

theorem C5_every_call_is_retried:
  "retry_discipline req t (generateText api req t)
 \<and> retry_discipline
      (chat_request c (SummarizePodcastPrompt c) (JoinContents summaries) (maxTokens c)) t
      (GeneratePodcastContent c summaries t)
 \<and> retry_discipline
      (chat_request c (SummarizeBlogPrompt c) (JoinContents summaries) (maxTokens c)) t
      (GenerateBlogContent c summaries t)
 \<and> retry_discipline (chat_request c (IntroPrompt c) podcastContent 300) t
      (GenerateIntroContent c podcastContent t)
 \<and> (if int64 (maxTokens c * 4) < 0
     then GenerateStoryText c storyContent t = (Inl SliceOutOfRange, t)
     else retry_discipline
            (chat_request c (SummarizeStoryPrompt c)
               (take (nat (int64 (maxTokens c * 4))) storyContent) (maxTokens c)) t
            (GenerateStoryText c storyContent t))"
proof -
  have story: "GenerateStoryText c storyContent t =
      generateText (client c)
        (chat_request c (SummarizeStoryPrompt c)
           (take (nat (int64 (maxTokens c * 4))) storyContent) (maxTokens c)) t"
    if "\<not> int64 (maxTokens c * 4) < 0"
    using that by (auto simp add: GenerateStoryText_def Let_def)
  have panic: "GenerateStoryText c storyContent t = (Inl SliceOutOfRange, t)"
    if "int64 (maxTokens c * 4) < 0"
    using that by (auto simp add: GenerateStoryText_def Let_def)
  show ?thesis
    using generateText_discipline story panic
    by (simp add: GeneratePodcastContent_def GenerateBlogContent_def GenerateIntroContent_def)
qed

lemma flaky_run:
  "generateText flaky_openai a_request [] =
     (Inr ''summary'',
      [CreateChatCompletion a_request 120000000000 ApiError,
       Sleep 2000000000,
       CreateChatCompletion a_request 120000000000 (ApiResponse []),
       Sleep 4000000000,
       CreateChatCompletion a_request 120000000000 (ApiResponse [''summary''])])"
  by (simp add: generateText_def generateText_loop.simps maxRetries_def flaky_openai_def
      Minute_def Second_def Let_def)

theorem C5_witness:
  "generateText flaky_openai a_request [] =
     (Inr ''summary'',
      [CreateChatCompletion a_request 120000000000 ApiError,
       Sleep 2000000000,
       CreateChatCompletion a_request 120000000000 (ApiResponse []),
       Sleep 4000000000,
       CreateChatCompletion a_request 120000000000 (ApiResponse [''summary''])])
   \<and> retry_discipline a_request [] (generateText flaky_openai a_request [])
   \<and> retry_discipline
        (chat_request a_client (SummarizeStoryPrompt a_client)
           (take (nat (int64 (maxTokens a_client * 4))) ''story text'') (maxTokens a_client)) []
        (GenerateStoryText a_client ''story text'' [])"
proof -
  have h: "\<not> int64 (maxTokens a_client * 4) < 0"
    by (simp add: a_client_def int64_def)
  from C5_every_call_is_retried [of a_request "[]" flaky_openai a_client _ _ "''story text''"] h
  have "retry_discipline a_request [] (generateText flaky_openai a_request [])"
    "retry_discipline
        (chat_request a_client (SummarizeStoryPrompt a_client)
           (take (nat (int64 (maxTokens a_client * 4))) ''story text'') (maxTokens a_client)) []
        (GenerateStoryText a_client ''story text'' [])"
    by simp_all
  with flaky_run show ?thesis by (intro conjI)
qed

subsection \<open>The audio merge\<close>

lemma itoa_not_Nil: "itoa n \<noteq> []"
  by (subst itoa.simps) simp

lemma digit_inj: "a < 10 \<Longrightarrow> b < 10 \<Longrightarrow> digit a = digit b \<Longrightarrow> a = b"
  by (simp add: digit_def char_of_eq_iff take_bit_nat_eq_self)

lemma itoa_inj: "itoa m = itoa n \<Longrightarrow> m = n"
proof (induction m arbitrary: n rule: itoa.induct)
  case (1 m)
  show ?case
  proof (cases "m < 10")
    case small: True
    then have m: "itoa m = [digit m]" by (subst itoa.simps) simp
    show ?thesis
    proof (cases "n < 10")
      case True
      then have "itoa n = [digit n]" by (subst itoa.simps) simp
      with m "1.prems" small True show ?thesis using digit_inj by simp
    next
      case False
      then have "itoa n = itoa (n div 10) @ [digit (n mod 10)]" by (subst itoa.simps) simp
      with m "1.prems" itoa_not_Nil [of "n div 10"] show ?thesis by simp
    qed
  next
    case big: False
    then have m: "itoa m = itoa (m div 10) @ [digit (m mod 10)]" by (subst itoa.simps) simp
    show ?thesis
    proof (cases "n < 10")
      case True
      then have "itoa n = [digit n]" by (subst itoa.simps) simp
      with m "1.prems" itoa_not_Nil [of "m div 10"] show ?thesis by simp
    next
      case False
      then have "itoa n = itoa (n div 10) @ [digit (n mod 10)]" by (subst itoa.simps) simp
      with m "1.prems" have eq: "itoa (m div 10) = itoa (n div 10)"
        "digit (m mod 10) = digit (n mod 10)" by simp_all
      from "1.IH" [OF big eq(1)] have "m div 10 = n div 10" .
      moreover from eq(2) have "m mod 10 = n mod 10" by (intro digit_inj) simp_all
      ultimately show ?thesis by (metis div_mult_mod_eq)
    qed
  qed
qed

lemma segPath_inj [simp]: "segPath d i = segPath d j \<longleftrightarrow> i = j"
  by (auto simp: segPath_def filepath_Join_def dest: itoa_inj)

lemma fileListPath_not_segPath [simp]:
  "fileListPath d \<noteq> segPath d i" "segPath d i \<noteq> fileListPath d"
  by (simp_all add: segPath_def fileListPath_def filepath_Join_def)

lemma digit_not_special: "k < 10 \<Longrightarrow> digit k \<noteq> quote \<and> digit k \<noteq> newline"
proof -
  assume k: "k < 10"
  have q: "quote = char_of (39 :: nat)" and n: "newline = char_of (10 :: nat)"
    by (simp_all add: quote_def newline_def char_of_def bit_iff_odd)
  from k show ?thesis
    unfolding q n digit_def by (simp add: char_of_eq_iff take_bit_nat_eq_self)
qed

lemma itoa_digits: "c \<in> set (itoa n) \<Longrightarrow> \<exists>k<10. c = digit k"
proof (induction n rule: itoa.induct)
  case (1 n)
  show ?case
  proof (cases "n < 10")
    case True
    then have "itoa n = [digit n]" by (subst itoa.simps) simp
    with "1.prems" True show ?thesis by auto
  next
    case False
    then have "itoa n = itoa (n div 10) @ [digit (n mod 10)]" by (subst itoa.simps) simp
    with "1.prems" have "c \<in> set (itoa (n div 10)) \<or> c = digit (n mod 10)" by auto
    then show ?thesis
    proof
      assume "c \<in> set (itoa (n div 10))"
      with "1.IH" False show ?thesis by simp
    next
      assume "c = digit (n mod 10)"
      moreover have "n mod 10 < 10" by simp
      ultimately show ?thesis by blast
    qed
  qed
qed

lemma segPath_clean:
  assumes "quote \<notin> set d" and "newline \<notin> set d"
  shows "quote \<notin> set (segPath d i) \<and> newline \<notin> set (segPath d i)"
proof -
  have digits: "quote \<notin> set (itoa i)" "newline \<notin> set (itoa i)"
  proof -
    have "c \<noteq> quote \<and> c \<noteq> newline" if "c \<in> set (itoa i)" for c
    proof -
      from itoa_digits [OF that] obtain k where "k < 10" "c = digit k" by auto
      then show ?thesis using digit_not_special [of k] by simp
    qed
    then show "quote \<notin> set (itoa i)" "newline \<notin> set (itoa i)" by auto
  qed
  have fixed: "quote \<notin> set ''/seg''" "quote \<notin> set ''.mp3''"
    "newline \<notin> set ''/seg''" "newline \<notin> set ''.mp3''"
    by (simp_all add: quote_def newline_def)
  have parts: "set (segPath d i) = set d \<union> set ''/seg'' \<union> set (itoa i) \<union> set ''.mp3''"
    unfolding segPath_def filepath_Join_def by (simp only: set_append append_Cons append_Nil) auto
  show ?thesis
    unfolding parts using assms digits fixed by (simp only: Un_iff) simp
qed

lemma Split_line:
  "sep \<notin> set a \<Longrightarrow> Split (a @ sep # rest) sep = a # Split rest sep"
  by (induction a) auto

lemma parse_file_line_quoted:
  "quote \<notin> set p \<Longrightarrow> parse_file_line (''file '' @ [quote] @ p @ [quote]) = Some p"
  by (simp add: parse_file_line_def butlast_append)

lemma parse_manifest:
  assumes "\<forall>p \<in> set ps. quote \<notin> set p \<and> newline \<notin> set p"
  shows "parse_script (Split (concat (map manifest_line ps)) newline) = Some ps"
  using assms
proof (induction ps)
  case Nil
  show ?case by simp
next
  case (Cons p ps)
  define l where "l = ''file '' @ [quote] @ p @ [quote]"
  have nl: "newline \<notin> set l"
    using Cons.prems by (simp add: l_def quote_def newline_def)
  have "concat (map manifest_line (p # ps)) = l @ newline # concat (map manifest_line ps)"
    by (simp add: manifest_line_def l_def)
  then have "Split (concat (map manifest_line (p # ps))) newline
               = l # Split (concat (map manifest_line ps)) newline"
    using Split_line [OF nl] by simp
  moreover have "l \<noteq> []" by (simp add: l_def)
  moreover have "parse_file_line l = Some p"
    unfolding l_def using Cons.prems by (intro parse_file_line_quoted) simp
  moreover have "parse_script (Split (concat (map manifest_line ps)) newline) = Some ps"
    using Cons by simp
  ultimately show ?case by simp
qed

lemma write_segments_spec:
  assumes "write_segments e d segs i fs = Some fs'" and "fs (fileListPath d) = Some m"
    and "\<forall>k < length segs. length (manifest_line (segPath d (i + k)))
            \<le> Fprintf_written e (manifest_line (segPath d (i + k)))"
  shows "fs' (fileListPath d)
           = Some (m @ concat (map (\<lambda>k. manifest_line (segPath d k)) [i..<i + length segs]))
       \<and> (\<forall>k < length segs. fs' (segPath d (i + k)) = Some (segs ! k))
       \<and> (\<forall>p. p \<noteq> fileListPath d \<and> (\<forall>k < length segs. p \<noteq> segPath d (i + k))
              \<longrightarrow> fs' p = fs p)"
  using assms
proof (induction segs arbitrary: i fs m)
  case Nil
  then show ?case by simp
next
  case (Cons seg rest)
  define fs1 where "fs1 = Fprintf e (fs(segPath d i \<mapsto> seg)) (fileListPath d)
                            (manifest_line (segPath d i))"
  from Cons.prems(1) have ws: "write_segments e d rest (i + 1) fs1 = Some fs'"
    by (simp add: fs1_def split: if_splits)
  have land: "length (manifest_line (segPath d i)) \<le> Fprintf_written e (manifest_line (segPath d i))"
    using Cons.prems(3) by force
  have fl: "fs1 (fileListPath d) = Some (m @ manifest_line (segPath d i))"
    using Cons.prems(2) land by (simp add: fs1_def Fprintf_def)
  have rest_land: "\<forall>k < length rest. length (manifest_line (segPath d (i + 1 + k)))
            \<le> Fprintf_written e (manifest_line (segPath d (i + 1 + k)))"
  proof (intro allI impI)
    fix k assume "k < length rest"
    then have "Suc k < length (seg # rest)" by simp
    with Cons.prems(3) have "length (manifest_line (segPath d (i + Suc k)))
            \<le> Fprintf_written e (manifest_line (segPath d (i + Suc k)))" by blast
    then show "length (manifest_line (segPath d (i + 1 + k)))
            \<le> Fprintf_written e (manifest_line (segPath d (i + 1 + k)))" by simp
  qed
  from Cons.IH [OF ws fl rest_land] have ih:
    "fs' (fileListPath d)
       = Some ((m @ manifest_line (segPath d i))
               @ concat (map (\<lambda>k. manifest_line (segPath d k)) [i + 1..<i + 1 + length rest]))"
    "\<forall>k < length rest. fs' (segPath d (i + 1 + k)) = Some (rest ! k)"
    "\<forall>p. p \<noteq> fileListPath d \<and> (\<forall>k < length rest. p \<noteq> segPath d (i + 1 + k))
          \<longrightarrow> fs' p = fs1 p"
    by blast+
  have upt: "[i..<i + length (seg # rest)] = i # [i + 1..<i + 1 + length rest]"
    using upt_conv_Cons [of i "i + length (seg # rest)"] by simp
  have a: "fs' (fileListPath d)
           = Some (m @ concat (map (\<lambda>k. manifest_line (segPath d k)) [i..<i + length (seg # rest)]))"
    using ih(1) unfolding upt by simp
  have first: "fs' (segPath d i) = Some seg"
  proof -
    have "fs' (segPath d i) = fs1 (segPath d i)"
      using ih(3) by simp
    then show ?thesis by (simp add: fs1_def Fprintf_def)
  qed
  have b: "\<forall>k < length (seg # rest). fs' (segPath d (i + k)) = Some ((seg # rest) ! k)"
  proof (intro allI impI)
    fix k assume "k < length (seg # rest)"
    then show "fs' (segPath d (i + k)) = Some ((seg # rest) ! k)"
      using first ih(2) by (cases k) auto
  qed
  have c: "\<forall>p. p \<noteq> fileListPath d \<and> (\<forall>k < length (seg # rest). p \<noteq> segPath d (i + k))
              \<longrightarrow> fs' p = fs p"
  proof (intro allI impI)
    fix p assume p: "p \<noteq> fileListPath d \<and> (\<forall>k < length (seg # rest). p \<noteq> segPath d (i + k))"
    then have "p \<noteq> segPath d i" by force
    moreover have "\<forall>k < length rest. p \<noteq> segPath d (i + 1 + k)"
    proof (intro allI impI)
      fix k assume "k < length rest"
      then have "Suc k < length (seg # rest)" by simp
      with p have "p \<noteq> segPath d (i + Suc k)" by blast
      then show "p \<noteq> segPath d (i + 1 + k)" by simp
    qed
    ultimately have "fs' p = fs1 p" "fs1 p = fs p"
      using p ih(3) by (simp_all add: fs1_def Fprintf_def)
    then show "fs' p = fs p" by simp
  qed
  from a b c show ?case by blast
qed

text \<open>Without segments the list names no file, and ffmpeg rejects it.\<close>

lemma mergeAudioBytes_no_segments:
  "mergeAudioBytes e [] =
     (case MkdirTemp e of
        None \<Rightarrow> Inl MkdirTempFailed
      | Some d \<Rightarrow> if \<not> Create_ok e (fileListPath d) then Inl CreateFailed else Inl FfmpegFailed)"
  by (simp add: mergeAudioBytes_def merge_prepare_def ffmpeg_run_def ffmpeg_concat_def
      ffmpeg_args_def split: option.splits)

text \<open>
  When the temporary directory has a name without quote and line break and every line of
  the list reaches the file, a merge that returns a buffer returns the segments one after
  the other, in the order of the input, and there is at least one segment.
\<close>

lemma mergeAudioBytes_in_order:
  assumes dir: "MkdirTemp e = Some d" "quote \<notin> set d" "newline \<notin> set d"
    and land: "\<forall>k < length segs. length (manifest_line (segPath d k))
                 \<le> Fprintf_written e (manifest_line (segPath d k))"
    and ok: "mergeAudioBytes e segs = Inr merged"
  shows "merged = concat segs \<and> segs \<noteq> []"
proof -
  from ok dir(1) obtain fs where
    ws: "write_segments e d segs 0 [fileListPath d \<mapsto> []] = Some fs"
    and run: "ffmpeg_run e fs (ffmpeg_args d) \<noteq> None"
    and out: "(case ffmpeg_run e fs (ffmpeg_args d) of None \<Rightarrow> None | Some fs' \<Rightarrow> fs' (outPath d))
                = Some merged"
    by (auto simp: mergeAudioBytes_def merge_prepare_def split: option.splits if_splits)
  define paths where "paths = map (segPath d) [0..<length segs]"
  have land': "\<forall>k < length segs. length (manifest_line (segPath d (0 + k)))
                 \<le> Fprintf_written e (manifest_line (segPath d (0 + k)))"
    using land by simp
  from write_segments_spec [OF ws _ land', of "[]"] have
    script: "fs (fileListPath d) = Some (concat (map manifest_line paths))"
    and files: "\<forall>k < length segs. fs (segPath d k) = Some (segs ! k)"
    by (simp_all add: paths_def comp_def)
  have clean: "\<forall>p \<in> set paths. quote \<notin> set p \<and> newline \<notin> set p"
    using segPath_clean [OF dir(2,3)] by (auto simp: paths_def)
  have parsed: "parse_script (Split (concat (map manifest_line paths)) newline) = Some paths"
    using parse_manifest [OF clean] .
  have present: "\<not> list_ex (\<lambda>path. fs path = None) paths"
    using files by (auto simp: paths_def list_ex_iff)
  have contents: "map (\<lambda>path. case fs path of None \<Rightarrow> [] | Some x \<Rightarrow> x) paths = segs"
    using files by (auto simp: paths_def intro: nth_equalityI)
  have cc: "ffmpeg_concat fs (fileListPath d) (outPath d) =
      (if paths = [] then None else Some (fs(outPath d \<mapsto> concat segs)))"
    using script parsed present contents by (simp add: ffmpeg_concat_def)
  have rr: "ffmpeg_run e fs (ffmpeg_args d) =
      (if ffmpeg_fails e fs (ffmpeg_args d) then None
       else ffmpeg_concat fs (fileListPath d) (outPath d))"
    by (simp add: ffmpeg_run_def ffmpeg_args_def)
  from run out rr cc have "paths \<noteq> []" "merged = concat segs"
    by (auto split: if_splits)
  then show ?thesis by (auto simp: paths_def)
qed

lemma itoa_small: "itoa 0 = ''0''" "itoa (Suc 0) = ''1''" "itoa (Suc (Suc 0)) = ''2''"
  by (subst itoa.simps, simp add: digit_def char_of_def bit_iff_odd)+

lemmas merge_eval = mergeAudioBytes_def merge_prepare_def ffmpeg_run_def ffmpeg_concat_def
  ffmpeg_args_def parse_file_line_def Fprintf_def manifest_line_def segPath_def fileListPath_def
  outPath_def filepath_Join_def quote_def newline_def itoa_small

text \<open>
  C3. The segments \<open>a\<close>, \<open>b\<close>, \<open>c\<close>, in an environment where the write of the second line of
  the list fails: \<open>mergeAudioBytes\<close> does not notice, the list names the first and the third
  file, and the merge returns \<open>ac\<close> without an error. Where every write succeeds the merge
  returns \<open>abc\<close>, and without segments it returns an error, since ffmpeg rejects a list that
  names no file.
\<close>

theorem C3_lost_manifest_line:
  "mergeAudioBytes lossy_os [''a'', ''b'', ''c''] = Inr ''ac''
   \<and> mergeAudioBytes plain_os [''a'', ''b'', ''c''] = Inr ''abc''
   \<and> mergeAudioBytes plain_os [] = Inl FfmpegFailed"
  by (simp add: merge_eval lossy_os_def plain_os_def)

subsection \<open>Fetching the content of a story\<close>

lemmas crawler_eval = GetStoryContent_def fetchArticle_def fetchComments_def errCh_def
  received_def cap_def int64_def StatusOK_def separator_def Let_def

text \<open>
  When the body of the article cannot be read, \<open>GetStoryContent\<close> returns an error.
\<close>

theorem C8_counterexample:
  "GetStoryContent broken_body_web True (a_story ''1'') 4096
     = Inl (ArticleFailed ReadResponseFailed)"
  by (simp add: crawler_eval broken_body_web_def a_story_def)

lemma errCh_empty:
  "errCh af a c = [] \<longleftrightarrow> (\<exists>x. a = Inr x) \<and> (\<exists>y. c = Inr y)"
  by (cases a; cases c) (simp_all add: errCh_def Let_def)

lemma cap_take: "0 \<le> int64 (mt * 4) \<Longrightarrow> cap mt x = Some (take (nat (int64 (mt * 4))) x)"
  by (simp add: cap_def Let_def)

text \<open>
  C8. Fetching fails soft in part. When the transport fails or the status is not 200, the
  fetch of the article and the fetch of the discussion return the empty text and no error.
  When the request cannot be built or the body cannot be read, and for the discussion also
  when the page cannot be parsed or its comment tree cannot be rendered, the fetch returns
  an error. \<open>GetStoryContent\<close> returns the error of a fetch that failed (of the one that
  reported first, when both failed). When both fetches return without error and the size
  cap is not negative, it returns the title, the article and the discussion, each cut to
  the cap and left out when empty, joined by the separator.
\<close>

theorem C8_fetch_failures:
  "(\<forall>url. http_get w url = TransportError \<longrightarrow> fetchArticle w url = Inr [])
 \<and> (\<forall>url code body. http_get w url = Response code body \<and> code \<noteq> StatusOK
        \<longrightarrow> fetchArticle w url = Inr [])
 \<and> (\<forall>url. http_get w url = RequestInvalid \<longrightarrow> fetchArticle w url = Inl CreateRequestFailed)
 \<and> (\<forall>url. http_get w url = Response StatusOK None
        \<longrightarrow> fetchArticle w url = Inl ReadResponseFailed)
 \<and> (\<forall>url b. http_get w url = Response StatusOK (Some b) \<longrightarrow> fetchArticle w url = Inr b)
 \<and> (\<forall>x. http_get w (''https://news.ycombinator.com/item?id='' @ x) = TransportError
        \<longrightarrow> fetchComments w x = Inr [])
 \<and> (\<forall>x code body. http_get w (''https://news.ycombinator.com/item?id='' @ x) = Response code body
          \<and> code \<noteq> StatusOK
        \<longrightarrow> fetchComments w x = Inr [])
 \<and> (\<forall>x. http_get w (''https://news.ycombinator.com/item?id='' @ x) = RequestInvalid
        \<longrightarrow> fetchComments w x = Inl CreateRequestFailed)
 \<and> (\<forall>x. http_get w (''https://news.ycombinator.com/item?id='' @ x) = Response StatusOK None
        \<longrightarrow> fetchComments w x = Inl ReadResponseFailed)
 \<and> (\<forall>x b. http_get w (''https://news.ycombinator.com/item?id='' @ x) = Response StatusOK (Some b)
          \<and> \<not> NewDocumentFromReader_ok w b
        \<longrightarrow> fetchComments w x = Inl ParseHTMLFailed)
 \<and> (\<forall>x b. http_get w (''https://news.ycombinator.com/item?id='' @ x) = Response StatusOK (Some b)
          \<and> NewDocumentFromReader_ok w b \<and> comment_tree_Html w b = None
        \<longrightarrow> fetchComments w x = Inl ExtractCommentsFailed)
 \<and> (\<forall>x b h. http_get w (''https://news.ycombinator.com/item?id='' @ x) = Response StatusOK (Some b)
          \<and> NewDocumentFromReader_ok w b \<and> comment_tree_Html w b = Some h
        \<longrightarrow> fetchComments w x = Inr h)
 \<and> (\<forall>e. fetchArticle w (URL st) = Inl e
          \<and> (article_first \<or> (\<exists>c. fetchComments w (ID st) = Inr c))
        \<longrightarrow> GetStoryContent w article_first st mt = Inl (ArticleFailed e))
 \<and> (\<forall>e. fetchComments w (ID st) = Inl e
          \<and> (\<not> article_first \<or> (\<exists>a. fetchArticle w (URL st) = Inr a))
        \<longrightarrow> GetStoryContent w article_first st mt = Inl (CommentsFailed e))
 \<and> (\<forall>a c. fetchArticle w (URL st) = Inr a \<and> fetchComments w (ID st) = Inr c
          \<and> 0 \<le> int64 (mt * 4)
        \<longrightarrow> GetStoryContent w article_first st mt =
              Inr (Join
                ((if Title st \<noteq> []
                  then [''<title>'' @ [CHR 0x0A] @ Title st @ [CHR 0x0A] @ ''</title>'']
                  else [])
                 @ (if a \<noteq> []
                    then [''<article>'' @ [CHR 0x0A] @ take (nat (int64 (mt * 4))) a
                            @ [CHR 0x0A] @ ''</article>'']
                    else [])
                 @ (if c \<noteq> []
                    then [''<comments>'' @ [CHR 0x0A] @ take (nat (int64 (mt * 4))) c
                            @ [CHR 0x0A] @ ''</comments>'']
                    else []))
                separator))"
proof -
  have article:
    "\<forall>url. http_get w url = TransportError \<longrightarrow> fetchArticle w url = Inr []"
    "\<forall>url code body. http_get w url = Response code body \<and> code \<noteq> StatusOK
        \<longrightarrow> fetchArticle w url = Inr []"
    "\<forall>url. http_get w url = RequestInvalid \<longrightarrow> fetchArticle w url = Inl CreateRequestFailed"
    "\<forall>url. http_get w url = Response StatusOK None
        \<longrightarrow> fetchArticle w url = Inl ReadResponseFailed"
    "\<forall>url b. http_get w url = Response StatusOK (Some b) \<longrightarrow> fetchArticle w url = Inr b"
    by (simp_all add: fetchArticle_def)
  have comments:
    "\<forall>x. http_get w (''https://news.ycombinator.com/item?id='' @ x) = TransportError
        \<longrightarrow> fetchComments w x = Inr []"
    "\<forall>x code body. http_get w (''https://news.ycombinator.com/item?id='' @ x) = Response code body
          \<and> code \<noteq> StatusOK
        \<longrightarrow> fetchComments w x = Inr []"
    "\<forall>x. http_get w (''https://news.ycombinator.com/item?id='' @ x) = RequestInvalid
        \<longrightarrow> fetchComments w x = Inl CreateRequestFailed"
    "\<forall>x. http_get w (''https://news.ycombinator.com/item?id='' @ x) = Response StatusOK None
        \<longrightarrow> fetchComments w x = Inl ReadResponseFailed"
    "\<forall>x b. http_get w (''https://news.ycombinator.com/item?id='' @ x) = Response StatusOK (Some b)
          \<and> \<not> NewDocumentFromReader_ok w b
        \<longrightarrow> fetchComments w x = Inl ParseHTMLFailed"
    "\<forall>x b. http_get w (''https://news.ycombinator.com/item?id='' @ x) = Response StatusOK (Some b)
          \<and> NewDocumentFromReader_ok w b \<and> comment_tree_Html w b = None
        \<longrightarrow> fetchComments w x = Inl ExtractCommentsFailed"
    "\<forall>x b h. http_get w (''https://news.ycombinator.com/item?id='' @ x) = Response StatusOK (Some b)
          \<and> NewDocumentFromReader_ok w b \<and> comment_tree_Html w b = Some h
        \<longrightarrow> fetchComments w x = Inr h"
    by (simp_all add: fetchComments_def)
  define fa where "fa = fetchArticle w (URL st)"
  define fc where "fc = fetchComments w (ID st)"
  have g1: "\<forall>e. fa = Inl e \<and> (article_first \<or> (\<exists>c. fc = Inr c))
        \<longrightarrow> GetStoryContent w article_first st mt = Inl (ArticleFailed e)"
    by (cases fc)
      (auto simp add: GetStoryContent_def errCh_def Let_def fa_def [symmetric] fc_def [symmetric])
  have g2: "\<forall>e. fc = Inl e \<and> (\<not> article_first \<or> (\<exists>a. fa = Inr a))
        \<longrightarrow> GetStoryContent w article_first st mt = Inl (CommentsFailed e)"
    by (cases fa)
      (auto simp add: GetStoryContent_def errCh_def Let_def fa_def [symmetric] fc_def [symmetric])
  have g3: "\<forall>a c. fa = Inr a \<and> fc = Inr c \<and> 0 \<le> int64 (mt * 4)
        \<longrightarrow> GetStoryContent w article_first st mt =
              Inr (Join
                ((if Title st \<noteq> []
                  then [''<title>'' @ [CHR 0x0A] @ Title st @ [CHR 0x0A] @ ''</title>'']
                  else [])
                 @ (if a \<noteq> []
                    then [''<article>'' @ [CHR 0x0A] @ take (nat (int64 (mt * 4))) a
                            @ [CHR 0x0A] @ ''</article>'']
                    else [])
                 @ (if c \<noteq> []
                    then [''<comments>'' @ [CHR 0x0A] @ take (nat (int64 (mt * 4))) c
                            @ [CHR 0x0A] @ ''</comments>'']
                    else []))
                separator)"
    by (auto simp add: GetStoryContent_def errCh_def received_def Let_def cap_take
        fa_def [symmetric] fc_def [symmetric])
  show ?thesis
    using article comments g1 g2 g3 unfolding fa_def fc_def by (intro conjI)
qed

theorem C8_witness:
  "fetchArticle offline_web (URL (a_story ''1'')) = Inr []
   \<and> fetchComments offline_web (ID (a_story ''1'')) = Inr []
   \<and> GetStoryContent offline_web True (a_story ''1'') 4096
       = Inr (''<title>'' @ [CHR 0x0A] @ ''story 1'' @ [CHR 0x0A] @ ''</title>'')
   \<and> fetchComments broken_body_web (ID (a_story ''1'')) = Inl ReadResponseFailed
   \<and> GetStoryContent broken_body_web False (a_story ''1'') 4096
       = Inl (CommentsFailed ReadResponseFailed)"
proof -
  have h1: "http_get offline_web (URL (a_story ''1'')) = TransportError"
    by (simp add: offline_web_def)
  have h2: "http_get offline_web (''https://news.ycombinator.com/item?id='' @ ID (a_story ''1''))
              = TransportError"
    by (simp add: offline_web_def)
  have h3: "(0::int) \<le> int64 (4096 * 4)"
    by (simp add: int64_def)
  have h4: "http_get broken_body_web (''https://news.ycombinator.com/item?id='' @ ID (a_story ''1''))
              = Response StatusOK None"
    by (simp add: broken_body_web_def StatusOK_def)
  note inst = C8_fetch_failures [of offline_web "a_story ''1''" True 4096]
  note broken = C8_fetch_failures [of broken_body_web "a_story ''1''" False 4096]
  have a: "fetchArticle offline_web (URL (a_story ''1'')) = Inr []"
    using inst [THEN conjunct1, rule_format, OF h1] .
  have c: "fetchComments offline_web (ID (a_story ''1'')) = Inr []"
    using inst [THEN conjunct2, THEN conjunct2, THEN conjunct2, THEN conjunct2, THEN conjunct2,
      THEN conjunct1, rule_format, OF h2] .
  have "GetStoryContent offline_web True (a_story ''1'') 4096 =
              Inr (Join
                ((if Title (a_story ''1'') \<noteq> []
                  then [''<title>'' @ [CHR 0x0A] @ Title (a_story ''1'') @ [CHR 0x0A] @ ''</title>'']
                  else [])
                 @ (if ([] :: string) \<noteq> []
                    then [''<article>'' @ [CHR 0x0A] @ take (nat (int64 (4096 * 4))) []
                            @ [CHR 0x0A] @ ''</article>'']
                    else [])
                 @ (if ([] :: string) \<noteq> []
                    then [''<comments>'' @ [CHR 0x0A] @ take (nat (int64 (4096 * 4))) []
                            @ [CHR 0x0A] @ ''</comments>'']
                    else []))
                separator)"
    using inst [THEN conjunct2, THEN conjunct2, THEN conjunct2, THEN conjunct2, THEN conjunct2,
      THEN conjunct2, THEN conjunct2, THEN conjunct2, THEN conjunct2, THEN conjunct2,
      THEN conjunct2, THEN conjunct2, THEN conjunct2, THEN conjunct2, rule_format,
      OF conjI [OF a conjI [OF c h3]]] .
  then have g: "GetStoryContent offline_web True (a_story ''1'') 4096
       = Inr (''<title>'' @ [CHR 0x0A] @ ''story 1'' @ [CHR 0x0A] @ ''</title>'')"
    by (simp add: a_story_def)
  have c': "fetchComments broken_body_web (ID (a_story ''1'')) = Inl ReadResponseFailed"
    using broken [THEN conjunct2, THEN conjunct2, THEN conjunct2, THEN conjunct2, THEN conjunct2,
      THEN conjunct2, THEN conjunct2, THEN conjunct2, THEN conjunct1, rule_format, OF h4] .
  have sched: "\<not> False \<or> (\<exists>a. fetchArticle broken_body_web (URL (a_story ''1'')) = Inr a)"
    by simp
  have g': "GetStoryContent broken_body_web False (a_story ''1'') 4096
       = Inl (CommentsFailed ReadResponseFailed)"
    using broken [THEN conjunct2, THEN conjunct2, THEN conjunct2, THEN conjunct2, THEN conjunct2,
      THEN conjunct2, THEN conjunct2, THEN conjunct2, THEN conjunct2, THEN conjunct2,
      THEN conjunct2, THEN conjunct2, THEN conjunct2, THEN conjunct1, rule_format,
      OF conjI [OF c' sched]] .
  from a c g c' g' show ?thesis by (intro conjI)
qed

subsection \<open>Admission of runs\<close>

text \<open>
  Two requests for one date, each followed by the Decide step of its run: both runs are in
  the Generate stage.
\<close>

theorem C9_counterexample:
  "generating ''2024-05-01''
     (exec [Request ''2024-05-01'' False, Request ''2024-05-01'' False, Decide 0, Decide 1] idle)
   = 2"
  by (simp add: generating_def exec_def idle_def Let_def)

text \<open>
  C9. Runs are not serialized. In every state, whatever the flag \<open>isProcessing\<close> says, a
  request starts a run. And when the content of a date is not stored, or both requests
  force, two requests for that date followed by the Decide steps of their runs leave both
  runs in the Generate stage.
\<close>

theorem C9_runs_are_not_serialized:
  "runs (step (Request date force) st)
     = runs st @ [\<lparr>run_date = date, run_force = force, run_stage = Started\<rparr>]
   \<and> (date \<notin> set (stored st) \<or> (f1 \<and> f2) \<longrightarrow>
        2 \<le> generating date
               (exec [Request date f1, Request date f2,
                      Decide (length (runs st)), Decide (length (runs st) + 1)] st))"
proof -
  define r1 where "r1 = \<lparr>run_date = date, run_force = f1, run_stage = Started\<rparr>"
  define r2 where "r2 = \<lparr>run_date = date, run_force = f2, run_stage = Started\<rparr>"
  define n where "n = length (runs st)"
  have "2 \<le> generating date
               (exec [Request date f1, Request date f2, Decide n, Decide (n + 1)] st)"
    if h: "date \<notin> set (stored st) \<or> (f1 \<and> f2)"
  proof -
    have "runs (exec [Request date f1, Request date f2, Decide n, Decide (n + 1)] st)
            = runs st @ [r1\<lparr>run_stage := Generate\<rparr>, r2\<lparr>run_stage := Generate\<rparr>]"
      using h
      by (auto simp add: exec_def Let_def n_def r1_def r2_def nth_append list_update_append)
    then show ?thesis
      by (simp add: generating_def r1_def r2_def)
  qed
  then show ?thesis
    by (simp add: n_def)
qed

theorem C9_witness:
  "runs (step (Request ''2024-05-01'' False) idle)
     = runs idle @ [\<lparr>run_date = ''2024-05-01'', run_force = False, run_stage = Started\<rparr>]
   \<and> 2 \<le> generating ''2024-05-01''
            (exec [Request ''2024-05-01'' False, Request ''2024-05-01'' False,
                   Decide (length (runs idle)), Decide (length (runs idle) + 1)] idle)"
proof -
  have h: "''2024-05-01'' \<notin> set (stored idle) \<or> (False \<and> False)"
    by (simp add: idle_def)
  from C9_runs_are_not_serialized [of "''2024-05-01''" False idle False False] h
  show ?thesis by blast
qed

end
